theory Spec2Isabelle
  imports Main
begin

section \<open>Fatal conditions\<close>

text \<open>
  \<open>VAST_CHECK\<close>, \<open>VAST_ASSERT\<close>, \<open>VAST_UNIMPLEMENTED\<close> and \<open>VAST_UNREACHABLE\<close> abort the
  whole lowering; a function that can reach one returns \<open>fatal + 'a\<close>. \<open>UNDEFINED\<close> marks
  a library call outside its precondition (\<open>back()\<close> of an empty list, an insertion with
  no scope active), where the C++ has no defined result.
\<close>

datatype fatal =
    VAST_CHECK string
  | VAST_ASSERT string
  | VAST_UNIMPLEMENTED string
  | VAST_UNREACHABLE string
  | UNDEFINED string


section \<open>Declaration attributes (visit_decl_attrs)\<close>

text \<open>
  A \<open>clang::Attr\<close> is observed through its class, its spelling and its arguments. The
  lowering of one attribute (\<open>visit(attr)\<close>) is the attribute translator's, taken as a
  parameter; MLIR attributes are uniqued, so they are compared by identity. The
  attribute dictionary of an operation (\<open>mlir::NamedAttrList\<close>) is a map from names.
\<close>

datatype attr_class = WeakAttr | SelectAnyAttr | CUDAGlobalAttr | BuiltinAttr | OtherAttr

record clang_attr =
  attr_class :: attr_class
  getSpelling :: string
  attr_args :: "nat list"

type_synonym mlir_attr = nat

type_synonym named_attr_list = "string \<rightharpoonup> mlir_attr"

definition excluded_attr_list :: "attr_class list" where
  "excluded_attr_list = [WeakAttr, SelectAnyAttr, CUDAGlobalAttr]"

text \<open>
  Modelled from the spec: \<open>exclude_attrs\<close> is declared outside the sources; by its name and
  its template argument it drops the attributes whose class is in the list and keeps
  the others in order.
\<close>

definition exclude_attrs :: "attr_class list \<Rightarrow> clang_attr list \<Rightarrow> clang_attr list" where
  "exclude_attrs excluded attrs = filter (\<lambda>attr. attr_class attr \<notin> set excluded) attrs"

text \<open>\<open>NamedAttrList::getNamed\<close> and \<open>NamedAttrList::set\<close>.\<close>

definition getNamed :: "named_attr_list \<Rightarrow> string \<Rightarrow> mlir_attr option" where
  "getNamed attrs name = attrs name"

definition set_named :: "string \<Rightarrow> mlir_attr \<Rightarrow> named_attr_list \<Rightarrow> named_attr_list" where
  "set_named name val attrs = attrs(name \<mapsto> val)"

text \<open>The key under which an attribute is stored: its spelling, or "builtin".\<close>

definition attr_spelling :: "clang_attr \<Rightarrow> string" where
  "attr_spelling attr = (if attr_class attr = BuiltinAttr then ''builtin'' else getSpelling attr)"

text \<open>The loop of \<open>visit_decl_attrs\<close> over the attributes that are left.\<close>

fun visit_attrs ::
  "(clang_attr \<Rightarrow> mlir_attr) \<Rightarrow> clang_attr list \<Rightarrow> named_attr_list \<Rightarrow> fatal + named_attr_list"
where
  "visit_attrs visit [] attrs = Inr attrs"
| "visit_attrs visit (attr # rest) attrs =
     (let visited = visit attr;
          spelling = attr_spelling attr
      in case getNamed attrs spelling of
           Some prev \<Rightarrow>
             if visited = prev then visit_attrs visit rest (set_named spelling visited attrs)
             else Inl (VAST_CHECK ''Conflicting redefinition of attribute'')
         | None \<Rightarrow> visit_attrs visit rest (set_named spelling visited attrs))"

text \<open>
  \<open>visit_decl_attrs\<close>, given the declaration's attributes (\<open>hasAttrs\<close> is that there are
  some) and the attributes of the operation; the result is what \<open>setAttrs\<close> stores.
\<close>

definition visit_decl_attrs ::
  "(clang_attr \<Rightarrow> mlir_attr) \<Rightarrow> clang_attr list \<Rightarrow> named_attr_list \<Rightarrow> fatal + named_attr_list"
where
  "visit_decl_attrs visit decl_attrs op_attrs =
     (if decl_attrs \<noteq> [] then
        visit_attrs visit (exclude_attrs excluded_attr_list decl_attrs) op_attrs
      else Inr op_attrs)"

text \<open>
  The precondition of the claim: attributes of the declaration with one spelling
  lower to one value.
\<close>

definition same_spelling_agree :: "(clang_attr \<Rightarrow> mlir_attr) \<Rightarrow> clang_attr list \<Rightarrow> bool" where
  "same_spelling_agree visit decl_attrs \<longleftrightarrow>
     list_all (\<lambda>a. list_all (\<lambda>b. attr_spelling a \<noteq> attr_spelling b \<or> visit a = visit b)
                  (exclude_attrs excluded_attr_list decl_attrs))
       (exclude_attrs excluded_attr_list decl_attrs)"

text \<open>
  What the check also needs: an attribute that the operation carries already under one
  of these spellings has the value the declaration's attribute lowers to.
\<close>

definition agrees_with_present ::
  "(clang_attr \<Rightarrow> mlir_attr) \<Rightarrow> clang_attr list \<Rightarrow> named_attr_list \<Rightarrow> bool"
where
  "agrees_with_present visit decl_attrs op_attrs \<longleftrightarrow>
     list_all (\<lambda>a. case getNamed op_attrs (attr_spelling a) of
                      None \<Rightarrow> True | Some prev \<Rightarrow> visit a = prev)
       (exclude_attrs excluded_attr_list decl_attrs)"


section \<open>Declarations of the source program\<close>

text \<open>
  An AST node is identified by a number (its address in clang); what the visitor reads
  of a node are the fields of a record. A \<open>clang::FunctionDecl\<close> is observed through the
  predicates and accessors that \<open>default_decl_visitor\<close> calls on it. \<open>redecls\<close> is the chain
  \<open>getMostRecentDecl()\<close>, \<open>getPreviousDecl()\<close>, ... of the function, most recent first.
\<close>

type_synonym decl_id = nat

type_synonym clang_type_id = nat

text \<open>
  A \<open>clang::Type\<close>, as far as the visitor tells types apart: a function type, a tag
  type with its declaration, a pointer, an array (a variable-length array is an array,
  and has a size expression), or some other type.
\<close>

datatype clang_type =
    BuiltinType nat
  | FunctionProtoType clang_type_id
  | TagType decl_id
  | PointerType clang_type
  | ArrayType clang_type
  | VariableArrayType nat clang_type



record label_decl =
  label_id :: decl_id
  label_name :: string





text \<open>The declarations inside a record, by the class the record visitor tells apart.\<close>

datatype record_child =
    FieldChild decl_id
  | AccessSpecChild decl_id
  | VarChild decl_id
  | ConstructorChild decl_id
  | DestructorChild decl_id
  | FunctionChild decl_id bool
  | OtherChild decl_id

record record_decl =
  record_id :: decl_id
  record_name :: string
  isCompleteDefinition :: bool
  isUnion :: bool
  isClass :: bool
  record_decls :: "record_child list"

datatype function_class = FunctionDecl | CXXMethodDecl | CXXConstructorDecl | CXXDestructorDecl

record function_decl =
  function_id :: decl_id
  function_class :: function_class
  getLocation :: nat
  getReturnType_isVoidType :: bool
  isMain :: bool
  hasBody :: bool
  isThisDeclarationADefinition :: bool
  doesThisDeclarationHaveABody :: bool
  doesDeclarationForceExternallyVisibleDefinition :: bool
  getDefinition :: "decl_id option"
  parameters :: "decl_id list"
  function_labels :: "label_decl list"
  getFunctionType :: clang_type_id
  isVariadic :: bool
  isMultiVersion :: bool
  isDefaulted :: bool
  isCopyAssignmentOperator :: bool
  isMoveAssignmentOperator :: bool
  lexicalDeclContext_isCXXRecordDecl :: bool
  getAttrs :: "clang_attr list"
  canonical_decl :: "decl_id option"
  redecls :: "decl_id list"

text \<open>\<open>CXXConstructorDecl\<close> and \<open>CXXDestructorDecl\<close> derive from \<open>CXXMethodDecl\<close>.\<close>

definition isa_CXXMethodDecl :: "function_decl \<Rightarrow> bool" where
  "isa_CXXMethodDecl decl \<longleftrightarrow> function_class decl \<noteq> FunctionDecl"

definition isa_CXXDestructorDecl :: "function_decl \<Rightarrow> bool" where
  "isa_CXXDestructorDecl decl \<longleftrightarrow> function_class decl = CXXDestructorDecl"

text \<open>A plain C function \<open>int f(void)\<close>, declared once and defined there.\<close>

definition plain_function :: function_decl where
  "plain_function =
     \<lparr>function_id = 1, function_class = FunctionDecl, getLocation = 10,
      getReturnType_isVoidType = False, isMain = False, hasBody = True,
      isThisDeclarationADefinition = True, doesThisDeclarationHaveABody = True,
      doesDeclarationForceExternallyVisibleDefinition = False, getDefinition = Some 1,
      parameters = [], function_labels = [], getFunctionType = 100, isVariadic = False, isMultiVersion = False,
      isDefaulted = False, isCopyAssignmentOperator = False, isMoveAssignmentOperator = False,
      lexicalDeclContext_isCXXRecordDecl = False, getAttrs = [],
      canonical_decl = Some 1, redecls = [1]\<rparr>"


section \<open>Operations, blocks and regions\<close>

text \<open>
  The operations that function lowering creates or inspects. A region is its list of
  blocks, a block its arguments and its operations in order; \<open>core::ScopeOp\<close> carries
  its body region. An operation of any other kind is \<open>OtherOp\<close>, with its name and with
  whether it has MLIR's \<open>IsTerminator\<close> trait.
\<close>

type_synonym mlir_type = nat

datatype mlir_value =
    VoidValue
  | IntegerValue mlir_type int
  | BlockArgument nat mlir_type
  | OpResult nat

datatype operation =
    ConstantOp mlir_value
  | ReturnOp mlir_value
  | ImplicitReturnOp mlir_value
  | UnreachableOp
  | OtherOp string bool
  | ScopeOp "block list"
and block = Block (getArguments: "mlir_value list") (getOperations: "operation list")

type_synonym region = "block list"

record core_function_type =
  getInputs :: "mlir_type list"
  getResults :: "mlir_type list"
  isVarArg :: bool

text \<open>
  Modelled from the spec: the trait lists of the dialects' operations are in their
  definition files, which are not among the sources. The spec's terminators are
  return, unreachable and branch: the implicit return and \<open>hl.unreachable\<close> carry the
  trait, a constant and a scope do not. Whether \<open>hl.return\<close> carries it is immaterial,
  since \<open>is_terminator\<close> accepts a \<open>ReturnOp\<close> by its class.
\<close>

fun hasTrait_IsTerminator :: "operation \<Rightarrow> bool" where
  "hasTrait_IsTerminator (ImplicitReturnOp v) = True"
| "hasTrait_IsTerminator UnreachableOp = True"
| "hasTrait_IsTerminator (OtherOp name terminator) = terminator"
| "hasTrait_IsTerminator (ReturnOp v) = False"
| "hasTrait_IsTerminator (ConstantOp v) = False"
| "hasTrait_IsTerminator (ScopeOp body) = False"

fun isa_ReturnOp :: "operation \<Rightarrow> bool" where
  "isa_ReturnOp (ReturnOp v) = True"
| "isa_ReturnOp op = False"

definition is_terminator :: "operation \<Rightarrow> bool" where
  "is_terminator op \<longleftrightarrow> hasTrait_IsTerminator op \<or> isa_ReturnOp op"

definition hasOneBlock :: "region \<Rightarrow> bool" where
  "hasOneBlock r \<longleftrightarrow> length r = 1"

text \<open>Appending operations at the end of a block (the builder, inserting at its end).\<close>

definition append_ops :: "operation list \<Rightarrow> block \<Rightarrow> block" where
  "append_ops new b = Block (getArguments b) (getOperations b @ new)"


section \<open>Function bodies: the synthesized terminator\<close>

text \<open>
  \<open>emit_function_terminator\<close>: the operations it creates at the insertion point.
  Modelled from the spec: the builder's \<open>constant\<close> is not among the sources; it creates
  the constant operation whose value the return takes (the void value, or zero of the
  given type). \<open>getResult(0)\<close> of a function type without results is undefined.
\<close>

definition emit_function_terminator ::
  "function_decl \<Rightarrow> core_function_type \<Rightarrow> fatal + operation list"
where
  "emit_function_terminator decl fty =
     (if getReturnType_isVoidType decl then
        Inr [ConstantOp VoidValue, ImplicitReturnOp VoidValue]
      else if isMain decl then
        (case getResults fty of
           [] \<Rightarrow> Inl (UNDEFINED ''getResult(0) of a function type without results'')
         | ty # _ \<Rightarrow> Inr [ConstantOp (IntegerValue ty 0), ReturnOp (IntegerValue ty 0)])
      else Inr [UnreachableOp])"

text \<open>\<open>next_scope\<close>: the body of the operation when it is a scope, null otherwise.\<close>

fun next_scope :: "operation option \<Rightarrow> region option" where
  "next_scope (Some (ScopeOp body)) = Some body"
| "next_scope op = None"

text \<open>
  Modelled from the spec: \<open>get_last_op\<close> is not among the sources; it finds ``the true last
  operation'' of a scope: the last operation of the last block of its body, null when
  there is none.
\<close>

definition get_last_op :: "region \<Rightarrow> operation option" where
  "get_last_op body =
     (if body = [] then None
      else if getOperations (last body) = [] then None
      else Some (last (getOperations (last body))))"

text \<open>
  The insertion point stays at the end of a last block: of the function's, or of the
  body of the scope reached by entering \<open>depth\<close> scopes in turn. \<open>process_scope\<close> looks at
  the region that holds the scope: when that region is one block whose only operation
  is the scope, the insertion point moves to the end of the scope's body and the
  scope's last operation is returned; otherwise null is returned and the insertion
  point stays. (The last block of \<open>parent\<close> holds the scope, so it is not empty.)
\<close>

definition process_scope :: "region \<Rightarrow> region \<Rightarrow> nat \<Rightarrow> fatal + (nat \<times> operation option)" where
  "process_scope parent body depth =
     (if hasOneBlock parent \<and> length (getOperations (last parent)) = 1 then
        (if body = [] then Inl (UNDEFINED ''set_insertion_point_to_end of a region without blocks'')
         else Inr (Suc depth, get_last_op body))
      else Inr (depth, None))"

lemma size_last_op_less:
  assumes "get_last_op body = Some op"
  shows "size op < size (ScopeOp body)"
proof -
  from assms have ne: "body \<noteq> []" and ops: "getOperations (last body) \<noteq> []"
    and op: "op = last (getOperations (last body))"
    by (auto simp: get_last_op_def split: if_splits)
  have "op \<in> set (getOperations (last body))" using ops op by simp
  then have "size op \<le> size_list size (getOperations (last body))"
    by (rule size_list_estimation') simp
  also have "\<dots> < size (last body)"
    by (cases "last body") simp
  also have "\<dots> \<le> size_list size body"
  proof -
    have "last body \<in> set body" using ne by simp
    then show ?thesis by (rule size_list_estimation') simp
  qed
  finally show ?thesis by simp
qed

text \<open>
  The loop \<open>while (auto scope = next_scope(last_op)) last_op = process_scope(scope)\<close>, with
  the region that holds \<open>last_op\<close> and the depth of the insertion point.
\<close>

function scope_loop ::
  "region \<Rightarrow> operation option \<Rightarrow> nat \<Rightarrow> fatal + (nat \<times> operation option)"
where
  "scope_loop parent last_op depth =
     (case next_scope last_op of
        None \<Rightarrow> Inr (depth, last_op)
      | Some body \<Rightarrow>
          (case process_scope parent body depth of
             Inl e \<Rightarrow> Inl e
           | Inr (depth', last_op') \<Rightarrow> scope_loop body last_op' depth'))"
  by pat_completeness auto
termination
proof (relation "measure (\<lambda>(parent, last_op, depth). case last_op of None \<Rightarrow> 0 | Some op \<Rightarrow> size op)")
  show "wf (measure (\<lambda>(parent, last_op, depth). case last_op of None \<Rightarrow> 0 | Some op \<Rightarrow> size op))"
    by simp
next
  fix parent :: region and last_op :: "operation option" and depth :: nat
    and body :: region and r :: "nat \<times> operation option"
    and depth' :: nat and last_op' :: "operation option"
  assume scope: "next_scope last_op = Some body"
    and processed: "process_scope parent body depth = Inr r"
    and r: "(depth', last_op') = r"
  from scope have last_op: "last_op = Some (ScopeOp body)"
    by (cases last_op rule: next_scope.cases) simp_all
  from processed r have "last_op' = None \<or> last_op' = get_last_op body"
    by (auto simp: process_scope_def split: if_splits)
  then have "(case last_op' of None \<Rightarrow> 0 | Some op \<Rightarrow> size op) < size (ScopeOp body)"
  proof (cases last_op')
    case None
    then show ?thesis by simp
  next
    case (Some op)
    with \<open>last_op' = None \<or> last_op' = get_last_op body\<close>
    have "get_last_op body = Some op" by simp
    then have "size op < size (ScopeOp body)" by (rule size_last_op_less)
    with Some show ?thesis by simp
  qed
  with last_op
  show "((body, last_op', depth'), (parent, last_op, depth))
    \<in> measure (\<lambda>(parent, last_op, depth). case last_op of None \<Rightarrow> 0 | Some op \<Rightarrow> size op)"
    by simp
qed

declare scope_loop.simps [simp del]

text \<open>
  Creating operations at the insertion point: at the end of the last block of the
  region reached by entering \<open>depth\<close> scopes, each the only operation of the only block
  of the region around it.
\<close>

fun insert_at_end :: "nat \<Rightarrow> operation list \<Rightarrow> region \<Rightarrow> fatal + region" where
  "insert_at_end 0 new r =
     (if r = [] then Inl (UNDEFINED ''insertion into a region without blocks'')
      else Inr (butlast r @ [append_ops new (last r)]))"
| "insert_at_end (Suc depth) new [Block args [ScopeOp body]] =
     (case insert_at_end depth new body of
        Inl e \<Rightarrow> Inl e
      | Inr body' \<Rightarrow> Inr [Block args [ScopeOp body']])"
| "insert_at_end (Suc depth) new r = Inl (UNDEFINED ''insertion point outside the region'')"

text \<open>
  The end of \<open>emit_function_body\<close>, after the statements are lowered: \<open>fn_blocks\<close> are the
  blocks of the function then. The result is the blocks with the terminator, if one
  is synthesized.
\<close>

definition terminate_function_body ::
  "function_decl \<Rightarrow> core_function_type \<Rightarrow> region \<Rightarrow> fatal + region"
where
  "terminate_function_body decl fty fn_blocks =
     (if fn_blocks = [] then Inl (UNDEFINED ''back() of a function without blocks'')
      else
        let ops = getOperations (last fn_blocks) in
        case (if ops \<noteq> [] then scope_loop fn_blocks (Some (last ops)) 0 else Inr (0, None)) of
          Inl e \<Rightarrow> Inl e
        | Inr (depth, last_op) \<Rightarrow>
            if ops = [] \<or> (case last_op of None \<Rightarrow> True | Some op \<Rightarrow> \<not> is_terminator op) then
              (case emit_function_terminator decl fty of
                 Inl e \<Rightarrow> Inl e
               | Inr new \<Rightarrow> insert_at_end depth new fn_blocks)
            else Inr fn_blocks)"

text \<open>
  A region wrapped in trailing scopes, outermost first: each scope is the only
  operation of the only block of the region around it.
\<close>

fun in_trailing_scopes :: "mlir_value list list \<Rightarrow> region \<Rightarrow> region" where
  "in_trailing_scopes [] r = r"
| "in_trailing_scopes (args # rest) r = [Block args [ScopeOp (in_trailing_scopes rest r)]]"

text \<open>A region that is exactly one block holding exactly one scope.\<close>

fun is_trailing_scope :: "region \<Rightarrow> bool" where
  "is_trailing_scope [Block args [ScopeOp body]] = True"
| "is_trailing_scope r = False"

text \<open>
  The last operation of the region, looked up through trailing scopes the way the
  loop does, is a terminator.
\<close>

definition ends_in_terminator :: "region \<Rightarrow> bool" where
  "ends_in_terminator r \<longleftrightarrow>
     (case scope_loop r (get_last_op r) 0 of
        Inr (depth, Some op) \<Rightarrow> is_terminator op
      | _ \<Rightarrow> False)"

text \<open>The last operation of the last block of the region itself is a terminator.\<close>

definition last_op_is_terminator :: "region \<Rightarrow> bool" where
  "last_op_is_terminator r \<longleftrightarrow>
     (case get_last_op r of None \<Rightarrow> False | Some op \<Rightarrow> is_terminator op)"

definition append_to_last_block :: "operation list \<Rightarrow> region \<Rightarrow> region" where
  "append_to_last_block new r = butlast r @ [append_ops new (last r)]"

text \<open>
  The block arguments of the trailing scopes of a region, outermost first, and the
  region inside the innermost of them.
\<close>

fun trailing_args :: "region \<Rightarrow> mlir_value list list" where
  "trailing_args [Block args [ScopeOp body]] = args # trailing_args body"
| "trailing_args r = []"

fun innermost :: "region \<Rightarrow> region" where
  "innermost [Block args [ScopeOp body]] = innermost body"
| "innermost r = r"


section \<open>The code generator's context\<close>

subsection \<open>Scoped tables\<close>

text \<open>
  An \<open>llvm::ScopedHashTable\<close>: the scopes that are open, innermost first, each with the
  bindings inserted while it was the innermost. A lookup finds the innermost binding;
  an insertion goes to the innermost scope and has no defined result when no scope is
  open; a \<open>ScopedHashTableScope\<close> opens a scope when it is constructed and drops it, with
  its bindings, when it is destroyed.
\<close>

type_synonym ('k, 'v) scoped_table = "('k \<rightharpoonup> 'v) list"

fun table_lookup :: "('k, 'v) scoped_table \<Rightarrow> 'k \<Rightarrow> 'v option" where
  "table_lookup [] key = None"
| "table_lookup (scope # outer) key =
     (case scope key of Some v \<Rightarrow> Some v | None \<Rightarrow> table_lookup outer key)"

fun table_insert :: "'k \<Rightarrow> 'v \<Rightarrow> ('k, 'v) scoped_table \<Rightarrow> fatal + ('k, 'v) scoped_table" where
  "table_insert key v [] = Inl (UNDEFINED ''No scope active'')"
| "table_insert key v (scope # outer) = Inr (scope(key \<mapsto> v) # outer)"



text \<open>
  Modelled from the spec: \<open>declare\<close> is a member of the context, which is not among the
  sources (\<open>context().declare\<close>, here \<open>context_declare\<close>). Its contract in the spec: if the key already has a binding in the current
  table chain, return it; otherwise invoke the builder to construct the IR entity, bind
  it, and return it. The table is given by its accessor \<open>get\<close> and its update \<open>put\<close> on
  the state; the builder runs on the state and may change it.
\<close>

definition context_declare ::
  "('s \<Rightarrow> ('k, 'v) scoped_table) \<Rightarrow> (('k, 'v) scoped_table \<Rightarrow> 's \<Rightarrow> 's) \<Rightarrow> 'k \<Rightarrow>
   ('s \<Rightarrow> fatal + ('v \<times> 's)) \<Rightarrow> 's \<Rightarrow> fatal + ('v \<times> 's)"
where
  "context_declare get put key builder ctx =
     (case table_lookup (get ctx) key of
        Some v \<Rightarrow> Inr (v, ctx)
      | None \<Rightarrow>
          (case builder ctx of
             Inl e \<Rightarrow> Inl e
           | Inr (v, ctx') \<Rightarrow>
               (case table_insert key v (get ctx') of
                  Inl e \<Rightarrow> Inl e
                | Inr table \<Rightarrow> Inr (v, put table ctx'))))"

subsection \<open>Operations of the module\<close>

text \<open>
  The declaration-level operations of the module are kept in a store; the identity of
  an operation is its index there, and an operation is changed in place by replacing
  the entry. A value is the result of an operation or a block argument.
\<close>

type_synonym op_id = nat

datatype storage_class =
  sc_none | sc_auto | sc_static | sc_extern | sc_private_extern | sc_register

datatype ts_class = tsc_none | tsc_gnu_thread | tsc_cxx_thread | tsc_c_thread

datatype visibility = Public | Private | Nested

type_synonym linkage = nat

datatype record_kind = StructDeclOp | UnionDeclOp | ClassDeclOp | CxxStructDeclOp

record func_op =
  sym_name :: string
  function_type :: core_function_type
  fn_linkage :: linkage
  fn_visibility :: visibility
  fn_attrs :: named_attr_list
  fn_body :: region

datatype hl_op =
    FuncOp func_op
  | VarDeclOp string mlir_type "storage_class option" "ts_class option"
      "nat list option" "nat option"
  | TypeDefOp string mlir_type
  | LabelDeclOp string
  | EnumDeclOp string "mlir_type option" "op_id list"
  | EnumConstantOp string mlir_type int "nat option"
  | TypeDeclOp string
  | RecordDeclOp record_kind string "op_id list"

fun getDefiningOp :: "mlir_value \<Rightarrow> op_id option" where
  "getDefiningOp (OpResult op) = Some op"
| "getDefiningOp v = None"

text \<open>A \<open>clang::GlobalDecl\<close>: a declaration (or null) and the constructor or destructor kind.\<close>

datatype global_kind = NoKind | Ctor_Complete | Dtor_Complete

record global_decl =
  getDecl :: "decl_id option"
  global_kind :: global_kind

definition getWithDecl :: "global_decl \<Rightarrow> decl_id \<Rightarrow> global_decl" where
  "getWithDecl glob decl = glob\<lparr>getDecl := Some decl\<rparr>"

text \<open>What is reported: through clang's diagnostics engine, and through the context.\<close>

datatype diagnostic =
    err_duplicate_mangled_name nat string
  | note_previous_definition nat

record codegen_context =
  module_ops :: "hl_op list"
  insertion_point :: "(op_id \<times> nat) option"
  vars :: "(decl_id, mlir_value) scoped_table"
  labels :: "(decl_id, op_id) scoped_table"
  typedefs :: "(decl_id, op_id) scoped_table"
  typedecls :: "(decl_id, op_id) scoped_table"
  enumdecls :: "(decl_id, op_id) scoped_table"
  enumconsts :: "(decl_id, op_id) scoped_table"
  global_values :: "(string, op_id) scoped_table"
  weak_ref_references :: "op_id set"
  diagnosed_conflicting_definitions :: "global_decl set"
  deferred_decls :: "string \<rightharpoonup> global_decl"
  deferred_decls_to_emit :: "global_decl list"
  default_methods_to_emit :: "global_decl list"
  diagnostics :: "diagnostic list"
  errors :: "string list"

text \<open>A context with one scope open in every table and nothing in the module.\<close>

definition fresh_context :: codegen_context where
  "fresh_context =
     \<lparr>module_ops = [], insertion_point = None, vars = [Map.empty], labels = [Map.empty],
      typedefs = [Map.empty], typedecls = [Map.empty], enumdecls = [Map.empty],
      enumconsts = [Map.empty], global_values = [Map.empty], weak_ref_references = {},
      diagnosed_conflicting_definitions = {}, deferred_decls = Map.empty,
      deferred_decls_to_emit = [], default_methods_to_emit = [], diagnostics = [],
      errors = []\<rparr>"

text \<open>
  Modelled from the spec: the builder is not among the sources. \<open>make\<close> (here \<open>make_operation\<close>) creates the
  operation at the insertion point and returns it: the operation is new in the store,
  and when the insertion point is inside an enum or record operation it becomes a
  member of that operation at that position, the insertion point moving past it.
\<close>

fun insert_member :: "nat \<Rightarrow> op_id \<Rightarrow> hl_op \<Rightarrow> hl_op" where
  "insert_member at new (EnumDeclOp name ty members) =
     EnumDeclOp name ty (take at members @ [new] @ drop at members)"
| "insert_member at new (RecordDeclOp kind name members) =
     RecordDeclOp kind name (take at members @ [new] @ drop at members)"
| "insert_member at new op = op"

definition make_operation :: "hl_op \<Rightarrow> codegen_context \<Rightarrow> op_id \<times> codegen_context" where
  "make_operation op ctx =
     (let new = length (module_ops ctx);
          ops = module_ops ctx @ [op]
      in case insertion_point ctx of
           None \<Rightarrow> (new, ctx\<lparr>module_ops := ops\<rparr>)
         | Some (parent, at) \<Rightarrow>
             (new, ctx\<lparr>module_ops := (if parent < length ops
                                       then ops[parent := insert_member at new (ops ! parent)]
                                       else ops),
                        insertion_point := Some (parent, Suc at)\<rparr>))"


section \<open>Parameters of a function definition\<close>

record parm_var_decl =
  parm_id :: decl_id
  parm_name :: string




text \<open>
  Modelled from the spec: \<open>context().error\<close> is not among the sources; the error is
  reported and lowering continues.
\<close>

definition context_error :: "string \<Rightarrow> codegen_context \<Rightarrow> codegen_context" where
  "context_error msg ctx = ctx\<lparr>errors := errors ctx @ [msg]\<rparr>"

definition VisitParmVarDecl ::
  "parm_var_decl \<Rightarrow> codegen_context \<Rightarrow> op_id option \<times> codegen_context"
where
  "VisitParmVarDecl decl ctx =
     (case table_lookup (vars ctx) (parm_id decl) of
        Some var \<Rightarrow> (getDefiningOp var, ctx)
      | None \<Rightarrow>
          (None, context_error (''error: missing parameter declaration '' @ parm_name decl) ctx))"

text \<open>
  \<open>VisitTranslationUnitDecl\<close>: every declaration of the unit is visited in order, whatever
  the visits return; only a fatal condition ends the loop. \<open>visit\<close> is the visitor's
  dispatch.
\<close>

fun VisitTranslationUnitDecl ::
  "('d \<Rightarrow> codegen_context \<Rightarrow> fatal + (op_id option \<times> codegen_context)) \<Rightarrow> 'd list \<Rightarrow>
   codegen_context \<Rightarrow> fatal + (op_id option \<times> codegen_context)"
where
  "VisitTranslationUnitDecl visit [] ctx = Inr (None, ctx)"
| "VisitTranslationUnitDecl visit (decl # rest) ctx =
     (case visit decl ctx of
        Inl e \<Rightarrow> Inl e
      | Inr (op, ctx') \<Rightarrow> VisitTranslationUnitDecl visit rest ctx')"


section \<open>The resolver of function globals (get_or_create_vast_function)\<close>

text \<open>
  The collaborators of the visitor, which it reaches through its lens: the AST and the
  language options of the source program, the name mangler, the lowering of types and
  attributes, the linkage rules, the lowering of statements and the dispatch to the
  visitors of other declarations. They are parameters of the model.
\<close>

record collaborators =
  ast :: "decl_id \<Rightarrow> function_decl"
  CPlusPlus :: bool
  OpenMPIsTargetDevice :: bool
  get_mangled_name :: "global_decl \<Rightarrow> string"
  lookup_representative_decl :: "string \<Rightarrow> global_decl option"
  visit_function_type :: "clang_type_id \<Rightarrow> bool \<Rightarrow> core_function_type"
  visit_attr :: "clang_attr \<Rightarrow> mlir_attr"
  get_function_linkage :: "global_decl \<Rightarrow> linkage"
  get_visibility_from_linkage :: "linkage \<Rightarrow> visibility"
  visit_body :: "function_decl \<Rightarrow> block \<Rightarrow> codegen_context \<Rightarrow> fatal + (region \<times> codegen_context)"
  visit_type :: "clang_type \<Rightarrow> mlir_type"
  visit_as_lvalue_type :: "clang_type \<Rightarrow> mlir_type"
  visit_decl :: "decl_id \<Rightarrow> codegen_context \<Rightarrow> fatal + (op_id option \<times> codegen_context)"
  previous_enum_isComplete :: "decl_id \<Rightarrow> bool"

text \<open>The type handed to the resolver: a \<open>core::FunctionType\<close> or some other type.\<close>

datatype vast_type = FunctionType core_function_type | ValueType mlir_type

text \<open>
  Modelled from the spec: \<open>global_emition\<close> and \<open>is_for_definition\<close> are declared outside
  the sources; an emission request says whether it is for a vtable, deferred, a thunk,
  and whether it is for a definition.
\<close>

record global_emition =
  for_vtable :: bool
  emit_defer :: bool
  thunk :: bool
  for_definition :: bool

definition is_for_definition :: "global_emition \<Rightarrow> bool" where
  "is_for_definition emit \<longleftrightarrow> for_definition emit"

definition deferred_emit_definition :: global_emition where
  "deferred_emit_definition = \<lparr>for_vtable = False, emit_defer = True, thunk = False, for_definition = True\<rparr>"

definition is_defaulted_method :: "function_decl \<Rightarrow> bool" where
  "is_defaulted_method function_decl =
     (if isDefaulted function_decl \<and> isa_CXXMethodDecl function_decl then
        isCopyAssignmentOperator function_decl \<or> isMoveAssignmentOperator function_decl
      else False)"

text \<open>
  Modelled from the spec: the Global Value Table and the Deferred-Emission Ledger are
  members of the context. \<open>get_global_value\<close> looks a canonical name up in the table; the
  to-emit and default-methods queues are ordered sequences that grow at the end.
\<close>

definition get_global_value :: "codegen_context \<Rightarrow> string \<Rightarrow> op_id option" where
  "get_global_value ctx mangled_name = table_lookup (global_values ctx) mangled_name"

definition add_deferred_decl_to_emit :: "global_decl \<Rightarrow> codegen_context \<Rightarrow> codegen_context" where
  "add_deferred_decl_to_emit decl ctx =
     ctx\<lparr>deferred_decls_to_emit := deferred_decls_to_emit ctx @ [decl]\<rparr>"

definition add_default_methods_to_emit :: "global_decl \<Rightarrow> codegen_context \<Rightarrow> codegen_context" where
  "add_default_methods_to_emit decl ctx =
     ctx\<lparr>default_methods_to_emit := default_methods_to_emit ctx @ [decl]\<rparr>"

definition get_func :: "codegen_context \<Rightarrow> op_id \<Rightarrow> func_op option" where
  "get_func ctx fn =
     (if fn < length (module_ops ctx) then
        (case module_ops ctx ! fn of FuncOp f \<Rightarrow> Some f | _ \<Rightarrow> None)
      else None)"

definition set_op :: "op_id \<Rightarrow> hl_op \<Rightarrow> codegen_context \<Rightarrow> codegen_context" where
  "set_op fn op ctx = ctx\<lparr>module_ops := (module_ops ctx)[fn := op]\<rparr>"

text \<open>
  Modelled from the spec: a function header made by the builder has the given name,
  type and linkage, MLIR's default (public) visibility, no other attribute and no body.
\<close>

definition make_FuncOp :: "string \<Rightarrow> core_function_type \<Rightarrow> linkage \<Rightarrow> hl_op" where
  "make_FuncOp name fty linkage =
     FuncOp \<lparr>sym_name = name, function_type = fty, fn_linkage = linkage,
             fn_visibility = Public, fn_attrs = Map.empty, fn_body = []\<rparr>"

text \<open>
  \<open>create_vast_function\<close>. The result is the function or the fatal condition that ended
  the call, with the context as the call left it: when a check fails the function has
  been created and bound to the name already, its attributes are set when the failing
  check comes after \<open>visit_decl_attrs\<close>, and the insertion guard has not run. Where
  there is no defined behaviour (\<open>UNDEFINED\<close>, or \<open>declare\<close> without a result) the context
  given with it is of no account.
\<close>

definition create_vast_function ::
  "collaborators \<Rightarrow> string \<Rightarrow> core_function_type \<Rightarrow> function_decl \<Rightarrow> codegen_context \<Rightarrow>
   (fatal + op_id) \<times> codegen_context"
where
  "create_vast_function env mangled_name fty function_decl ctx =
     (let guard = insertion_point ctx;
          linkage = get_function_linkage env
                      \<lparr>getDecl = Some (function_id function_decl), global_kind = NoKind\<rparr>
      in case context_declare global_values (\<lambda>table c. c\<lparr>global_values := table\<rparr>) mangled_name
                (\<lambda>c. Inr (make_operation (make_FuncOp mangled_name fty linkage) c)) ctx of
           Inl e \<Rightarrow> (Inl e, ctx)
         | Inr (fn, ctx1) \<Rightarrow>
             (case get_func ctx1 fn of
                None \<Rightarrow> (Inl (UNDEFINED ''the declared global is not a function''), ctx1)
              | Some f \<Rightarrow>
                  (case visit_decl_attrs (visit_attr env) (getAttrs function_decl) (fn_attrs f) of
                     Inl e \<Rightarrow> (Inl e, ctx1)
                   | Inr attrs \<Rightarrow>
                       if fn_body f \<noteq> [] then
                         (Inl (VAST_CHECK ''expected empty body''),
                          set_op fn (FuncOp (f\<lparr>fn_attrs := attrs\<rparr>)) ctx1)
                       else
                         let visibility =
                               (if isThisDeclarationADefinition function_decl then
                                  get_visibility_from_linkage env linkage
                                else if doesDeclarationForceExternallyVisibleDefinition function_decl
                                then Public
                                else Private)
                         in (Inr fn, (set_op fn (FuncOp (f\<lparr>fn_attrs := attrs,
                                                            fn_visibility := visibility\<rparr>)) ctx1)
                                       \<lparr>insertion_point := guard\<rparr>))))"

definition record_conflicting_definition ::
  "global_decl \<Rightarrow> codegen_context \<Rightarrow> bool \<times> codegen_context"
where
  "record_conflicting_definition glob ctx =
     (glob \<notin> diagnosed_conflicting_definitions ctx,
      ctx\<lparr>diagnosed_conflicting_definitions := insert glob (diagnosed_conflicting_definitions ctx)\<rparr>)"

definition report :: "diagnostic \<Rightarrow> codegen_context \<Rightarrow> codegen_context" where
  "report d ctx = ctx\<lparr>diagnostics := diagnostics ctx @ [d]\<rparr>"

text \<open>
  The check for two definitions of one mangled name (lines 167 to 182): \<open>fn\<close> is the
  function already in the table.
\<close>

definition diagnose_conflict ::
  "collaborators \<Rightarrow> string \<Rightarrow> global_decl \<Rightarrow> global_emition \<Rightarrow> func_op \<Rightarrow> codegen_context \<Rightarrow>
   fatal + codegen_context"
where
  "diagnose_conflict env mangled_name glob emit fn ctx =
     (if is_for_definition emit \<and> fn_body fn \<noteq> [] then
        (case lookup_representative_decl env mangled_name of
           None \<Rightarrow> Inr ctx
         | Some other \<Rightarrow>
             (case getDecl glob of
                None \<Rightarrow> Inl (UNDEFINED ''getCanonicalDecl of a null declaration'')
              | Some decl \<Rightarrow>
                  if canonical_decl (ast env decl) \<noteq> None then
                    (case record_conflicting_definition glob ctx of
                       (True, ctx1) \<Rightarrow>
                         (case getDecl other of
                            None \<Rightarrow>
                              Inl (UNDEFINED ''getLocation of a null declaration'')
                          | Some other_decl \<Rightarrow>
                              Inr (report (note_previous_definition (getLocation (ast env other_decl)))
                                    (report (err_duplicate_mangled_name
                                               (getLocation (ast env decl)) mangled_name) ctx1)))
                     | (False, ctx1) \<Rightarrow> Inr ctx1)
                  else Inr ctx))
      else Inr ctx)"

text \<open>
  The walk over the redeclarations, from the most recent backwards, for one that is
  lexically in a record and has a body (lines 264 to 276).
\<close>

fun walk_redecls ::
  "collaborators \<Rightarrow> global_decl \<Rightarrow> decl_id list \<Rightarrow> codegen_context \<Rightarrow> codegen_context"
where
  "walk_redecls env glob [] ctx = ctx"
| "walk_redecls env glob (function_decl # previous) ctx =
     (if lexicalDeclContext_isCXXRecordDecl (ast env function_decl) then
        (if doesThisDeclarationHaveABody (ast env function_decl) then
           (if is_defaulted_method (ast env function_decl) then
              add_default_methods_to_emit (getWithDecl glob function_decl) ctx
            else add_deferred_decl_to_emit (getWithDecl glob function_decl) ctx)
         else walk_redecls env glob previous ctx)
      else walk_redecls env glob previous ctx)"

text \<open>What is done when \<open>emit.defer\<close> is set (lines 230 to 278).\<close>

definition defer_emission ::
  "collaborators \<Rightarrow> string \<Rightarrow> global_decl \<Rightarrow> codegen_context \<Rightarrow> fatal + codegen_context"
where
  "defer_emission env mangled_name glob ctx =
     (if (case getDecl glob of None \<Rightarrow> False | Some decl \<Rightarrow> isa_CXXDestructorDecl (ast env decl))
      then Inl (VAST_UNIMPLEMENTED ''destructor'')
      else
        (case deferred_decls ctx mangled_name of
           Some ddi \<Rightarrow>
             Inr ((add_deferred_decl_to_emit ddi ctx)
                    \<lparr>deferred_decls := (deferred_decls ctx)(mangled_name := None)\<rparr>)
         | None \<Rightarrow>
             (case getDecl glob of
                Some decl \<Rightarrow>
                  if CPlusPlus env then Inr (walk_redecls env glob (redecls (ast env decl)) ctx)
                  else Inr ctx
              | None \<Rightarrow> Inr ctx)))"

text \<open>
  \<open>get_or_create_vast_function\<close>. The result is the function or the fatal condition that
  ended the call, with the context as the call left it: what was created, bound,
  erased or reported before a check failed stays so. Where the call has no defined
  behaviour (\<open>UNDEFINED\<close>: a null declaration is dereferenced) the context given with it
  is of no account.
\<close>

definition get_or_create_vast_function ::
  "collaborators \<Rightarrow> string \<Rightarrow> vast_type \<Rightarrow> global_decl \<Rightarrow> global_emition \<Rightarrow> codegen_context \<Rightarrow>
   (fatal + op_id) \<times> codegen_context"
where
  "get_or_create_vast_function env mangled_name ty glob emit ctx =
     (if for_vtable emit then (Inl (VAST_UNIMPLEMENTED ''emit.for_vtable''), ctx)
      else if thunk emit then (Inl (VAST_UNIMPLEMENTED ''emit.thunk''), ctx)
      else if getDecl glob \<noteq> None \<and> OpenMPIsTargetDevice env then
        (Inl (VAST_UNIMPLEMENTED ''OpenMPIsTargetDevice''), ctx)
      else if (case getDecl glob of None \<Rightarrow> False | Some decl \<Rightarrow> isMultiVersion (ast env decl)) then
        (Inl (VAST_UNIMPLEMENTED ''isMultiVersion''), ctx)
      else
        case get_global_value ctx mangled_name of
          Some entry \<Rightarrow>
            (case get_func ctx entry of
               None \<Rightarrow> (Inl (VAST_UNIMPLEMENTED ''entry is not a function''), ctx)
             | Some fn \<Rightarrow>
                 if entry \<in> weak_ref_references ctx then
                   (Inl (VAST_UNIMPLEMENTED ''weak_ref_references''),
                    ctx\<lparr>weak_ref_references := weak_ref_references ctx - {entry}\<rparr>)
                 else
                   (case diagnose_conflict env mangled_name glob emit fn ctx of
                      Inl e \<Rightarrow> (Inl e, ctx)
                    | Inr ctx1 \<Rightarrow>
                        if FunctionType (function_type fn) = ty then (Inr entry, ctx1)
                        else (Inl (VAST_UNREACHABLE ''NYI''), ctx1)))
        | None \<Rightarrow>
            (case ty of
               ValueType t \<Rightarrow>
                 (Inl (VAST_UNIMPLEMENTED ''functions with incomplete types''), ctx)
             | FunctionType fty \<Rightarrow>
                 (case getDecl glob of
                    None \<Rightarrow> (Inl (UNDEFINED ''cast of a null declaration''), ctx)
                  | Some decl \<Rightarrow>
                      (case create_vast_function env mangled_name fty (ast env decl) ctx of
                         (Inl e, ctx1) \<Rightarrow> (Inl e, ctx1)
                       | (Inr fn, ctx1) \<Rightarrow>
                           if emit_defer emit then
                             (case defer_emission env mangled_name glob ctx1 of
                                Inl e \<Rightarrow> (Inl e, ctx1)
                              | Inr ctx2 \<Rightarrow> (Inr fn, ctx2))
                           else (Inr fn, ctx1)))))"

text \<open>A call of the resolver, and a sequence of calls on a context.\<close>

type_synonym resolver_call = "string \<times> vast_type \<times> global_decl \<times> global_emition"

definition call_glob :: "resolver_call \<Rightarrow> global_decl" where
  "call_glob c = (case c of (mangled_name, ty, glob, emit) \<Rightarrow> glob)"

definition resolve :: "collaborators \<Rightarrow> resolver_call \<Rightarrow> codegen_context \<Rightarrow> codegen_context" where
  "resolve env c ctx =
     (case c of (mangled_name, ty, glob, emit) \<Rightarrow>
        snd (get_or_create_vast_function env mangled_name ty glob emit ctx))"

fun resolve_all :: "collaborators \<Rightarrow> resolver_call list \<Rightarrow> codegen_context \<Rightarrow> codegen_context" where
  "resolve_all env [] ctx = ctx"
| "resolve_all env (c # calls) ctx = resolve_all env calls (resolve env c ctx)"

text \<open>
  A request for a definition of a mangled name whose function in the table has a body
  already, on a call that reaches the check: the request is for no vtable or thunk, the
  declaration is there, is not multi-versioned and has a canonical declaration, the
  entry is a function with a body and no weak reference, and the mangler knows a
  representative declaration of the name.
\<close>

definition second_definition ::
  "collaborators \<Rightarrow> string \<Rightarrow> global_decl \<Rightarrow> global_emition \<Rightarrow> codegen_context \<Rightarrow> bool"
where
  "second_definition env mangled_name glob emit ctx \<longleftrightarrow>
     \<not> for_vtable emit \<and> \<not> thunk emit \<and> \<not> OpenMPIsTargetDevice env \<and> is_for_definition emit
     \<and> (case getDecl glob of
          None \<Rightarrow> False
        | Some decl \<Rightarrow> \<not> isMultiVersion (ast env decl) \<and> canonical_decl (ast env decl) \<noteq> None)
     \<and> (case get_global_value ctx mangled_name of
          None \<Rightarrow> False
        | Some entry \<Rightarrow>
            entry \<notin> weak_ref_references ctx
            \<and> (case get_func ctx entry of None \<Rightarrow> False | Some fn \<Rightarrow> fn_body fn \<noteq> []))
     \<and> (case lookup_representative_decl env mangled_name of
          None \<Rightarrow> False
        | Some other \<Rightarrow> getDecl other \<noteq> None)"

text \<open>
  The diagnostic pair: the error at the offending declaration, with the name, and the
  note at the representative declaration.
\<close>

definition conflict_report :: "collaborators \<Rightarrow> string \<Rightarrow> global_decl \<Rightarrow> diagnostic list" where
  "conflict_report env mangled_name glob =
     (case (getDecl glob, lookup_representative_decl env mangled_name) of
        (Some decl, Some other) \<Rightarrow>
          (case getDecl other of
             Some other_decl \<Rightarrow>
               [err_duplicate_mangled_name (getLocation (ast env decl)) mangled_name,
                note_previous_definition (getLocation (ast env other_decl))]
           | None \<Rightarrow> [])
      | _ \<Rightarrow> [])"

text \<open>
  Collaborators for a C unit: declaration \<open>d\<close> is a plain function at location \<open>10 * d\<close>,
  every name has declaration 1 as its representative, and a body lowers to the entry
  block alone.
\<close>

definition plain_collaborators :: collaborators where
  "plain_collaborators =
     \<lparr>ast = (\<lambda>d. plain_function\<lparr>function_id := d, getLocation := 10 * d\<rparr>),
      CPlusPlus = False, OpenMPIsTargetDevice = False,
      get_mangled_name = (\<lambda>glob. ''g''),
      lookup_representative_decl = (\<lambda>name. Some \<lparr>getDecl = Some 1, global_kind = NoKind\<rparr>),
      visit_function_type = (\<lambda>ty variadic. \<lparr>getInputs = [], getResults = [32], isVarArg = variadic\<rparr>),
      visit_attr = (\<lambda>attr. length (attr_args attr)),
      get_function_linkage = (\<lambda>glob. 0),
      get_visibility_from_linkage = (\<lambda>linkage. Public),
      visit_body = (\<lambda>decl entry ctx. Inr ([entry], ctx)),
      visit_type = (\<lambda>ty. 32), visit_as_lvalue_type = (\<lambda>ty. 33),
      visit_decl = (\<lambda>decl ctx. Inr (None, ctx)),
      previous_enum_isComplete = (\<lambda>decl. False)\<rparr>"

text \<open>A context whose module holds the function \<open>g\<close>, with a body.\<close>

definition context_with_g :: codegen_context where
  "context_with_g =
     fresh_context
       \<lparr>module_ops :=
          [FuncOp \<lparr>sym_name = ''g'',
                   function_type = \<lparr>getInputs = [], getResults = [32], isVarArg = False\<rparr>,
                   fn_linkage = 0, fn_visibility = Public, fn_attrs = Map.empty,
                   fn_body = [Block [] [ReturnOp (OpResult 7)]]\<rparr>],
        global_values := [[''g'' \<mapsto> 0]]\<rparr>"

text \<open>A redeclaration that is lexically in a record and has a body.\<close>

definition in_record_with_body :: "collaborators \<Rightarrow> decl_id \<Rightarrow> bool" where
  "in_record_with_body env d \<longleftrightarrow>
     lexicalDeclContext_isCXXRecordDecl (ast env d) \<and> doesThisDeclarationHaveABody (ast env d)"


text \<open>
  Collaborators for a C++ unit with \<open>struct S\<close>. Declarations 3 and 4 are the copy
  assignment operator of \<open>S\<close>: 3 is the declaration in the record, defaulted there and
  with a body, 4 is its most recent redeclaration, without a body. Declaration 6 is a
  member function defined inline in the record. Every other declaration is a plain
  function.
\<close>

definition cxx_method :: function_decl where
  "cxx_method =
     plain_function\<lparr>function_class := CXXMethodDecl, lexicalDeclContext_isCXXRecordDecl := True\<rparr>"

definition cxx_collaborators :: collaborators where
  "cxx_collaborators =
     plain_collaborators
       \<lparr>ast := (\<lambda>d. if d = 3 then
                        cxx_method\<lparr>function_id := 3, getLocation := 30, isDefaulted := True,
                          isCopyAssignmentOperator := True, redecls := [4, 3]\<rparr>
                      else if d = 4 then
                        cxx_method\<lparr>function_id := 4, getLocation := 40,
                          lexicalDeclContext_isCXXRecordDecl := False,
                          isThisDeclarationADefinition := False,
                          doesThisDeclarationHaveABody := False, hasBody := True,
                          isCopyAssignmentOperator := True, redecls := [4, 3]\<rparr>
                      else if d = 6 then
                        cxx_method\<lparr>function_id := 6, getLocation := 60, redecls := [6]\<rparr>
                      else plain_function\<lparr>function_id := d, getLocation := 10 * d, redecls := [d]\<rparr>),
        CPlusPlus := True\<rparr>"

section \<open>The visitors of declarations\<close>

subsection \<open>Variables\<close>







subsection \<open>Typedefs and labels\<close>






subsection \<open>Enums\<close>







subsection \<open>Records\<close>

text \<open>
  The members of a record definition: fields, access specifiers, variables,
  constructors, destructors and functions named by an identifier are visited, through
  the visitor's dispatch; anything else is passed over.
\<close>

fun visited_child :: "record_child \<Rightarrow> decl_id option" where
  "visited_child (FieldChild d) = Some d"
| "visited_child (AccessSpecChild d) = Some d"
| "visited_child (VarChild d) = Some d"
| "visited_child (ConstructorChild d) = Some d"
| "visited_child (DestructorChild d) = Some d"
| "visited_child (FunctionChild d identifier) = (if identifier then Some d else None)"
| "visited_child (OtherChild d) = None"

fun visit_fields ::
  "collaborators \<Rightarrow> record_child list \<Rightarrow> codegen_context \<Rightarrow> fatal + codegen_context"
where
  "visit_fields env [] ctx = Inr ctx"
| "visit_fields env (child # rest) ctx =
     (case visited_child child of
        None \<Rightarrow> visit_fields env rest ctx
      | Some d \<Rightarrow>
          (case visit_decl env d ctx of
             Inl e \<Rightarrow> Inl e
           | Inr (op, ctx') \<Rightarrow> visit_fields env rest ctx'))"

definition make_record_decl ::
  "collaborators \<Rightarrow> record_kind \<Rightarrow> record_decl \<Rightarrow> codegen_context \<Rightarrow>
   fatal + (op_id \<times> codegen_context)"
where
  "make_record_decl env kind decl ctx =
     (if \<not> isCompleteDefinition decl then
        context_declare typedecls (\<lambda>table c. c\<lparr>typedecls := table\<rparr>) (record_id decl)
          (\<lambda>c. Inr (make_operation (TypeDeclOp (record_name decl)) c)) ctx
      else
        (case make_operation (RecordDeclOp kind (record_name decl) []) ctx of
           (op, ctx1) \<Rightarrow>
             (case visit_fields env (record_decls decl) (ctx1\<lparr>insertion_point := Some (op, 0)\<rparr>) of
                Inl e \<Rightarrow> Inl e
              | Inr ctx2 \<Rightarrow> Inr (op, ctx2\<lparr>insertion_point := insertion_point ctx1\<rparr>))))"


definition VisitCXXRecordDecl ::
  "collaborators \<Rightarrow> record_decl \<Rightarrow> codegen_context \<Rightarrow> fatal + (op_id \<times> codegen_context)"
where
  "VisitCXXRecordDecl env decl =
     (if isClass decl then make_record_decl env ClassDeclOp decl
      else make_record_decl env CxxStructDeclOp decl)"

subsection \<open>What a completion in place leaves\<close>



fun is_tag_op :: "hl_op \<Rightarrow> bool" where
  "is_tag_op (EnumDeclOp name ty constants) = True"
| "is_tag_op (TypeDeclOp name) = True"
| "is_tag_op (RecordDeclOp kind name members) = True"
| "is_tag_op op = False"












subsection \<open>Functions\<close>





















section \<open>Pass pipeline (include/vast/Util/Pipeline.hpp)\<close>

text \<open>
  A pass is observed through its \<open>mlir::TypeID\<close>; two instances of one pass class share
  the id and may differ in their options. The base class \<open>mlir::PassManager\<close> is the
  sequence of passes handed to it, each with the operation it is nested under
  (\<open>None\<close> for a pass added at the top level).
\<close>

type_synonym pass_id_t = nat

record pass =
  getTypeID :: pass_id_t
  pass_options :: string

record pipeline_t =
  base :: "(string option \<times> pass) list"
  seen :: "pass_id_t set"

definition base_addNestedPass :: "string \<Rightarrow> pass \<Rightarrow> pipeline_t \<Rightarrow> pipeline_t" where
  "base_addNestedPass parent_t p ppl = ppl\<lparr>base := base ppl @ [(Some parent_t, p)]\<rparr>"

definition base_addPass :: "pass \<Rightarrow> pipeline_t \<Rightarrow> pipeline_t" where
  "base_addPass p ppl = ppl\<lparr>base := base ppl @ [(None, p)]\<rparr>"

definition addNestedPass :: "string \<Rightarrow> pass \<Rightarrow> pipeline_t \<Rightarrow> pipeline_t" where
  "addNestedPass parent_t p ppl =
     (let id = getTypeID p in
      if id \<in> seen ppl then ppl
      else base_addNestedPass parent_t p (ppl\<lparr>seen := insert id (seen ppl)\<rparr>))"

text \<open>
  Modelled from the spec: the body of \<open>pipeline_t::addPass\<close> is in Pipeline.cpp, which is
  not among the sources; only its declaration is. The header documents \<open>pipeline_t\<close> as
  ``a pass manager, which keeps track of duplicit passes and does not schedule them
  twice'', so \<open>addPass\<close> guards on \<open>seen\<close> the way \<open>addNestedPass\<close> does.
\<close>

definition addPass :: "pass \<Rightarrow> pipeline_t \<Rightarrow> pipeline_t" where
  "addPass p ppl =
     (let id = getTypeID p in
      if id \<in> seen ppl then ppl
      else base_addPass p (ppl\<lparr>seen := insert id (seen ppl)\<rparr>))"

definition scheduled_ids :: "pipeline_t \<Rightarrow> pass_id_t list" where
  "scheduled_ids ppl = map (\<lambda>(parent, p). getTypeID p) (base ppl)"

text \<open>Every scheduled pass is recorded in \<open>seen\<close>, and no TypeID is scheduled twice.\<close>

definition one_pass_per_id :: "pipeline_t \<Rightarrow> bool" where
  "one_pass_per_id ppl \<longleftrightarrow> distinct (scheduled_ids ppl) \<and> set (scheduled_ids ppl) \<subseteq> seen ppl"

definition empty_pipeline :: pipeline_t where
  "empty_pipeline = \<lparr>base = [], seen = {}\<rparr>"


subsection \<open>Declaration attributes\<close>

lemma visit_attrs_step:
  assumes "\<forall>prev. attrs (attr_spelling a) = Some prev \<longrightarrow> visit a = prev"
  shows "visit_attrs visit (a # as) attrs
    = visit_attrs visit as (set_named (attr_spelling a) (visit a) attrs)"
  using assms by (cases "attrs (attr_spelling a)") (simp_all add: Let_def getNamed_def)

lemma visit_attrs_step_inv:
  assumes "visit_attrs visit (a # as) attrs = Inr attrs'"
  shows "\<forall>prev. attrs (attr_spelling a) = Some prev \<longrightarrow> visit a = prev"
  using assms
  by (cases "attrs (attr_spelling a)") (simp_all add: Let_def getNamed_def split: if_splits)

lemma visit_attrs_succeeds:
  assumes "\<forall>a\<in>set as. \<forall>prev. attrs (attr_spelling a) = Some prev \<longrightarrow> visit a = prev"
    and "\<forall>a\<in>set as. \<forall>b\<in>set as. attr_spelling a = attr_spelling b \<longrightarrow> visit a = visit b"
  shows "\<exists>attrs'. visit_attrs visit as attrs = Inr attrs'
     \<and> (\<forall>a\<in>set as. attrs' (attr_spelling a) = Some (visit a))
     \<and> (\<forall>k. k \<notin> attr_spelling ` set as \<longrightarrow> attrs' k = attrs k)"
  using assms
proof (induction as arbitrary: attrs)
  case Nil
  show ?case by (intro exI [of _ attrs]) simp
next
  case (Cons a as)
  let ?attrs' = "set_named (attr_spelling a) (visit a) attrs"
  have a_in: "a \<in> set (a # as)" by simp
  have here: "\<forall>prev. attrs (attr_spelling a) = Some prev \<longrightarrow> visit a = prev"
    using Cons.prems(1) a_in by blast
  have step: "visit_attrs visit (a # as) attrs = visit_attrs visit as ?attrs'"
    using here by (rule visit_attrs_step)
  have present: "\<forall>b\<in>set as. \<forall>prev. ?attrs' (attr_spelling b) = Some prev \<longrightarrow> visit b = prev"
  proof (intro ballI allI impI)
    fix b prev
    assume b: "b \<in> set as" and p: "?attrs' (attr_spelling b) = Some prev"
    have b_in: "b \<in> set (a # as)" using b by simp
    show "visit b = prev"
    proof (cases "attr_spelling b = attr_spelling a")
      case True
      with p have "prev = visit a" by (simp add: set_named_def)
      moreover from Cons.prems(2) b_in a_in True have "visit b = visit a" by blast
      ultimately show ?thesis by simp
    next
      case False
      with p have "attrs (attr_spelling b) = Some prev" by (simp add: set_named_def)
      with Cons.prems(1) b_in show ?thesis by blast
    qed
  qed
  have agree: "\<forall>x\<in>set as. \<forall>y\<in>set as. attr_spelling x = attr_spelling y \<longrightarrow> visit x = visit y"
  proof (intro ballI impI)
    fix x y
    assume "x \<in> set as" and "y \<in> set as" and same: "attr_spelling x = attr_spelling y"
    then have "x \<in> set (a # as)" and "y \<in> set (a # as)" by simp_all
    with Cons.prems(2) same show "visit x = visit y" by blast
  qed
  from Cons.IH [OF present agree] obtain r where
    run: "visit_attrs visit as ?attrs' = Inr r"
    and each: "\<forall>b\<in>set as. r (attr_spelling b) = Some (visit b)"
    and others: "\<forall>k. k \<notin> attr_spelling ` set as \<longrightarrow> r k = ?attrs' k"
    by blast
  have first: "r (attr_spelling a) = Some (visit a)"
  proof (cases "attr_spelling a \<in> attr_spelling ` set as")
    case True
    then obtain b where b: "b \<in> set as" and same: "attr_spelling a = attr_spelling b" by blast
    have "b \<in> set (a # as)" using b by simp
    with Cons.prems(2) a_in same have "visit a = visit b" by blast
    moreover from each b have "r (attr_spelling b) = Some (visit b)" by blast
    ultimately show ?thesis using same by metis
  next
    case False
    with others have "r (attr_spelling a) = ?attrs' (attr_spelling a)" by blast
    then show ?thesis by (simp add: set_named_def)
  qed
  have each': "\<forall>b\<in>set (a # as). r (attr_spelling b) = Some (visit b)"
  proof
    fix b
    assume "b \<in> set (a # as)"
    then consider "b = a" | "b \<in> set as" by auto
    then show "r (attr_spelling b) = Some (visit b)"
    proof cases
      case 1
      with first show ?thesis by simp
    next
      case 2
      with each show ?thesis by blast
    qed
  qed
  have others': "\<forall>k. k \<notin> attr_spelling ` set (a # as) \<longrightarrow> r k = attrs k"
  proof (intro allI impI)
    fix k
    assume k: "k \<notin> attr_spelling ` set (a # as)"
    then have "k \<notin> attr_spelling ` set as" and ne: "k \<noteq> attr_spelling a" by auto
    with others have "r k = ?attrs' k" by blast
    with ne show "r k = attrs k" by (simp add: set_named_def)
  qed
  from step run have "visit_attrs visit (a # as) attrs = Inr r" by simp
  with each' others' show ?case by (intro exI [of _ r] conjI)
qed

lemma visit_attrs_checked:
  "visit_attrs visit as attrs = Inr attrs' \<Longrightarrow>
   (\<forall>a\<in>set as. \<forall>prev. attrs (attr_spelling a) = Some prev \<longrightarrow> visit a = prev)
   \<and> (\<forall>a\<in>set as. \<forall>b\<in>set as. attr_spelling a = attr_spelling b \<longrightarrow> visit a = visit b)"
proof (induction as arbitrary: attrs)
  case Nil
  then show ?case by simp
next
  case (Cons a as)
  let ?attrs' = "set_named (attr_spelling a) (visit a) attrs"
  have here: "\<forall>prev. attrs (attr_spelling a) = Some prev \<longrightarrow> visit a = prev"
    using Cons.prems by (rule visit_attrs_step_inv)
  then have "visit_attrs visit (a # as) attrs = visit_attrs visit as ?attrs'"
    by (rule visit_attrs_step)
  with Cons.prems have rest: "visit_attrs visit as ?attrs' = Inr attrs'" by simp
  note ih = Cons.IH [OF rest]
  from ih have ih_present:
    "\<forall>b\<in>set as. \<forall>prev. ?attrs' (attr_spelling b) = Some prev \<longrightarrow> visit b = prev"
    by (rule conjunct1)
  from ih have tail:
    "\<forall>x\<in>set as. \<forall>y\<in>set as. attr_spelling x = attr_spelling y \<longrightarrow> visit x = visit y"
    by (rule conjunct2)
  have later: "\<forall>b\<in>set as. attr_spelling b = attr_spelling a \<longrightarrow> visit b = visit a"
  proof (intro ballI impI)
    fix b
    assume b: "b \<in> set as" and same: "attr_spelling b = attr_spelling a"
    then have "?attrs' (attr_spelling b) = Some (visit a)" by (simp add: set_named_def)
    with ih_present b show "visit b = visit a" by blast
  qed
  have first: "\<forall>b\<in>set as. \<forall>prev. attrs (attr_spelling b) = Some prev \<longrightarrow> visit b = prev"
  proof (intro ballI allI impI)
    fix b prev
    assume b: "b \<in> set as" and p: "attrs (attr_spelling b) = Some prev"
    show "visit b = prev"
    proof (cases "attr_spelling b = attr_spelling a")
      case True
      with later b have "visit b = visit a" by blast
      moreover from here p True have "visit a = prev" by simp
      ultimately show ?thesis by simp
    next
      case False
      with p have "?attrs' (attr_spelling b) = Some prev" by (simp add: set_named_def)
      with ih_present b show ?thesis by blast
    qed
  qed
  have present: "\<forall>x\<in>set (a # as). \<forall>prev. attrs (attr_spelling x) = Some prev \<longrightarrow> visit x = prev"
    using here first by simp
  have agree: "\<forall>x\<in>set (a # as). \<forall>y\<in>set (a # as).
      attr_spelling x = attr_spelling y \<longrightarrow> visit x = visit y"
  proof (intro ballI impI)
    fix x y
    assume x: "x \<in> set (a # as)" and y: "y \<in> set (a # as)"
      and same: "attr_spelling x = attr_spelling y"
    from x y consider "x = a" "y = a" | "x = a" "y \<in> set as" | "x \<in> set as" "y = a"
      | "x \<in> set as" "y \<in> set as" by auto
    then show "visit x = visit y"
    proof cases
      case 1
      then show ?thesis by simp
    next
      case 2
      with later same show ?thesis by metis
    next
      case 3
      with later same show ?thesis by metis
    next
      case 4
      with tail same show ?thesis by blast
    qed
  qed
  from present agree show ?case by (rule conjI)
qed

lemma same_spelling_agree_iff:
  "same_spelling_agree visit decl_attrs \<longleftrightarrow>
   (\<forall>a\<in>set (exclude_attrs excluded_attr_list decl_attrs).
    \<forall>b\<in>set (exclude_attrs excluded_attr_list decl_attrs).
      attr_spelling a = attr_spelling b \<longrightarrow> visit a = visit b)"
  unfolding same_spelling_agree_def list_all_iff by blast

lemma agrees_with_present_iff:
  "agrees_with_present visit decl_attrs op_attrs \<longleftrightarrow>
   (\<forall>a\<in>set (exclude_attrs excluded_attr_list decl_attrs).
    \<forall>prev. op_attrs (attr_spelling a) = Some prev \<longrightarrow> visit a = prev)"
  unfolding agrees_with_present_def list_all_iff getNamed_def
  by (simp split: option.split)

text \<open>
  C10 (as amended). \<open>visit_decl_attrs\<close> sets every attribute of the declaration that is
  not excluded on the operation, under its spelling (a BuiltinAttr under "builtin"),
  and leaves the other names as they were, provided that the declaration's attributes
  of one spelling lower to equal values and that every attribute the operation already
  carries under one of these spellings equals the value lowered now. The check fails
  in every other case: a successful run on a declaration with attributes implies both
  conditions.
\<close>

theorem visit_decl_attrs_check:
  "(same_spelling_agree visit decl_attrs \<and> agrees_with_present visit decl_attrs op_attrs \<longrightarrow>
      (\<exists>attrs'. visit_decl_attrs visit decl_attrs op_attrs = Inr attrs'
         \<and> (\<forall>a\<in>set (exclude_attrs excluded_attr_list decl_attrs).
               attrs' (attr_spelling a) = Some (visit a))
         \<and> (\<forall>k. k \<notin> attr_spelling ` set (exclude_attrs excluded_attr_list decl_attrs)
               \<longrightarrow> attrs' k = op_attrs k)))
   \<and> ((\<exists>attrs'. visit_decl_attrs visit decl_attrs op_attrs = Inr attrs') \<and> decl_attrs \<noteq> [] \<longrightarrow>
      same_spelling_agree visit decl_attrs \<and> agrees_with_present visit decl_attrs op_attrs)"
proof (rule conjI; rule impI)
  let ?as = "exclude_attrs excluded_attr_list decl_attrs"
  assume pre: "same_spelling_agree visit decl_attrs \<and> agrees_with_present visit decl_attrs op_attrs"
  from pre have "same_spelling_agree visit decl_attrs" by (rule conjunct1)
  then have agree:
    "\<forall>a\<in>set ?as. \<forall>b\<in>set ?as. attr_spelling a = attr_spelling b \<longrightarrow> visit a = visit b"
    unfolding same_spelling_agree_iff .
  from pre have "agrees_with_present visit decl_attrs op_attrs" by (rule conjunct2)
  then have present:
    "\<forall>a\<in>set ?as. \<forall>prev. op_attrs (attr_spelling a) = Some prev \<longrightarrow> visit a = prev"
    unfolding agrees_with_present_iff .
  show "\<exists>attrs'. visit_decl_attrs visit decl_attrs op_attrs = Inr attrs'
         \<and> (\<forall>a\<in>set ?as. attrs' (attr_spelling a) = Some (visit a))
         \<and> (\<forall>k. k \<notin> attr_spelling ` set ?as \<longrightarrow> attrs' k = op_attrs k)"
  proof (cases "decl_attrs = []")
    case True
    then show ?thesis
      by (intro exI [of _ op_attrs]) (simp add: visit_decl_attrs_def exclude_attrs_def)
  next
    case False
    then have same: "visit_decl_attrs visit decl_attrs op_attrs = visit_attrs visit ?as op_attrs"
      by (simp add: visit_decl_attrs_def)
    show ?thesis unfolding same using present agree by (rule visit_attrs_succeeds)
  qed
next
  let ?as = "exclude_attrs excluded_attr_list decl_attrs"
  assume run: "(\<exists>attrs'. visit_decl_attrs visit decl_attrs op_attrs = Inr attrs') \<and> decl_attrs \<noteq> []"
  then have ne: "decl_attrs \<noteq> []" by (rule conjunct2)
  then have same: "visit_decl_attrs visit decl_attrs op_attrs = visit_attrs visit ?as op_attrs"
    by (simp add: visit_decl_attrs_def)
  from run have "\<exists>attrs'. visit_decl_attrs visit decl_attrs op_attrs = Inr attrs'"
    by (rule conjunct1)
  then obtain attrs' where "visit_attrs visit ?as op_attrs = Inr attrs'"
    unfolding same by (rule exE)
  note checked = visit_attrs_checked [OF this]
  from checked have "agrees_with_present visit decl_attrs op_attrs"
    unfolding agrees_with_present_iff by (rule conjunct1)
  moreover from checked have "same_spelling_agree visit decl_attrs"
    unfolding same_spelling_agree_iff by (rule conjunct2)
  ultimately
  show "same_spelling_agree visit decl_attrs \<and> agrees_with_present visit decl_attrs op_attrs"
    by simp
qed

theorem visit_decl_attrs_check_witness:
  "same_spelling_agree (\<lambda>a. length (attr_args a))
      [\<lparr>attr_class = OtherAttr, getSpelling = ''section'', attr_args = [1, 2]\<rparr>,
       \<lparr>attr_class = BuiltinAttr, getSpelling = '''', attr_args = []\<rparr>]
   \<and> agrees_with_present (\<lambda>a. length (attr_args a))
      [\<lparr>attr_class = OtherAttr, getSpelling = ''section'', attr_args = [1, 2]\<rparr>,
       \<lparr>attr_class = BuiltinAttr, getSpelling = '''', attr_args = []\<rparr>]
      [''section'' \<mapsto> 2]
   \<and> (\<exists>attrs'. visit_decl_attrs (\<lambda>a. length (attr_args a))
      [\<lparr>attr_class = OtherAttr, getSpelling = ''section'', attr_args = [1, 2]\<rparr>,
       \<lparr>attr_class = BuiltinAttr, getSpelling = '''', attr_args = []\<rparr>]
      [''section'' \<mapsto> 2] = Inr attrs'
      \<and> attrs' ''section'' = Some 2 \<and> attrs' ''builtin'' = Some 0 \<and> attrs' ''weak'' = None)"
proof -
  let ?v = "\<lambda>a::clang_attr. length (attr_args a)"
  let ?d = "[\<lparr>attr_class = OtherAttr, getSpelling = ''section'', attr_args = [1, 2]\<rparr>,
       \<lparr>attr_class = BuiltinAttr, getSpelling = '''', attr_args = []\<rparr>]"
  let ?o = "[''section'' \<mapsto> (2::nat)]"
  have a: "same_spelling_agree ?v ?d"
    by (simp add: same_spelling_agree_def exclude_attrs_def excluded_attr_list_def
        attr_spelling_def)
  have b: "agrees_with_present ?v ?d ?o"
    by (simp add: agrees_with_present_def exclude_attrs_def excluded_attr_list_def
        attr_spelling_def getNamed_def)
  have c: "exclude_attrs excluded_attr_list ?d = ?d"
    by (simp add: exclude_attrs_def excluded_attr_list_def)
  from visit_decl_attrs_check [of ?v ?d ?o] a b
  obtain attrs' where r: "visit_decl_attrs ?v ?d ?o = Inr attrs'"
    and s: "\<forall>a\<in>set (exclude_attrs excluded_attr_list ?d). attrs' (attr_spelling a) = Some (?v a)"
    and k: "\<forall>k. k \<notin> attr_spelling ` set (exclude_attrs excluded_attr_list ?d) \<longrightarrow> attrs' k = ?o k"
    by blast
  from s have s1: "attrs' ''section'' = Some 2" and s2: "attrs' ''builtin'' = Some 0"
    unfolding c by (simp_all add: attr_spelling_def)
  from k have s3: "attrs' ''weak'' = None"
    unfolding c by (simp add: attr_spelling_def)
  from r s1 s2 s3 have "\<exists>attrs'. visit_decl_attrs ?v ?d ?o = Inr attrs'
      \<and> attrs' ''section'' = Some 2 \<and> attrs' ''builtin'' = Some 0 \<and> attrs' ''weak'' = None"
    by (intro exI [of _ attrs'] conjI)
  with a b show ?thesis by (intro conjI)
qed

text \<open>
  The claim as it was stated fails: the declaration has a single attribute, so its
  same-spelling attributes agree, but the operation already carries another value
  under that spelling and the check aborts.
\<close>

theorem visit_decl_attrs_counterexample:
  "same_spelling_agree (\<lambda>a. length (attr_args a))
      [\<lparr>attr_class = OtherAttr, getSpelling = ''section'', attr_args = [1, 2]\<rparr>]
   \<and> visit_decl_attrs (\<lambda>a. length (attr_args a))
      [\<lparr>attr_class = OtherAttr, getSpelling = ''section'', attr_args = [1, 2]\<rparr>]
      [''section'' \<mapsto> 5]
     = Inl (VAST_CHECK ''Conflicting redefinition of attribute'')"
  by (simp add: same_spelling_agree_def visit_decl_attrs_def exclude_attrs_def
      excluded_attr_list_def attr_spelling_def getNamed_def)


subsection \<open>Function bodies: the synthesized terminator\<close>

lemma in_trailing_scopes_not_empty:
  "inner \<noteq> [] \<Longrightarrow> in_trailing_scopes as inner \<noteq> []"
  by (cases as) simp_all

lemma trailing_decomposition:
  "in_trailing_scopes (trailing_args r) (innermost r) = r \<and> \<not> is_trailing_scope (innermost r)"
  by (induction r rule: trailing_args.induct) simp_all

lemma trailing_args_wrapped:
  "\<not> is_trailing_scope inner \<Longrightarrow>
   trailing_args (in_trailing_scopes as inner) = as \<and> innermost (in_trailing_scopes as inner) = inner"
proof (induction as)
  case Nil
  then show ?case by (cases inner rule: is_trailing_scope.cases) simp_all
next
  case (Cons a as)
  then show ?case by simp
qed

lemma one_scope_is_trailing:
  assumes "hasOneBlock r" and "length (getOperations (last r)) = 1"
    and "get_last_op r = Some (ScopeOp b)"
  shows "is_trailing_scope r"
proof -
  from assms(1) obtain blk where r: "r = [blk]"
    by (cases r) (simp_all add: hasOneBlock_def)
  obtain args ops where blk: "blk = Block args ops" by (cases blk)
  from assms(2) r blk obtain op where ops: "ops = [op]"
    by (cases ops) simp_all
  from assms(3) r blk ops have "op = ScopeOp b" by (simp add: get_last_op_def)
  with r blk ops show ?thesis by simp
qed

lemma get_last_op_wrapped:
  "get_last_op [Block args [ScopeOp body]] = Some (ScopeOp body)"
  by (simp add: get_last_op_def)

lemma scope_loop_trailing:
  assumes "inner \<noteq> []" and "\<not> is_trailing_scope inner"
  shows "scope_loop (in_trailing_scopes as inner) (get_last_op (in_trailing_scopes as inner)) d
    = Inr (d + length as, case get_last_op inner of Some (ScopeOp b) \<Rightarrow> None | x \<Rightarrow> x)"
proof (induction as arbitrary: d)
  case Nil
  show ?case
  proof (cases "get_last_op inner")
    case None
    then show ?thesis by (simp add: scope_loop.simps)
  next
    case (Some op)
    show ?thesis
    proof (cases "\<exists>b. op = ScopeOp b")
      case True
      then obtain b where op: "op = ScopeOp b" by blast
      have "\<not> (hasOneBlock inner \<and> length (getOperations (last inner)) = 1)"
        using one_scope_is_trailing [of inner b] Some op assms(2) by blast
      then have "process_scope inner b d = Inr (d, None)"
        by (simp add: process_scope_def)
      then have "scope_loop inner (Some (ScopeOp b)) d = scope_loop b None d"
        by (simp add: scope_loop.simps [of inner])
      also have "\<dots> = Inr (d, None)" by (simp add: scope_loop.simps)
      finally show ?thesis using Some op by simp
    next
      case False
      then have "next_scope (Some op) = None" by (cases op) simp_all
      then have "scope_loop inner (Some op) d = Inr (d, Some op)"
        by (simp add: scope_loop.simps)
      moreover have "(case Some op of Some (ScopeOp b) \<Rightarrow> None | x \<Rightarrow> x) = Some op"
        using False by (cases op) simp_all
      ultimately show ?thesis using Some by simp
    qed
  qed
next
  case (Cons a as)
  let ?r' = "in_trailing_scopes as inner"
  have ne: "?r' \<noteq> []" using assms(1) by (rule in_trailing_scopes_not_empty)
  have "process_scope [Block a [ScopeOp ?r']] ?r' d = Inr (Suc d, get_last_op ?r')"
    using ne by (simp add: process_scope_def hasOneBlock_def)
  then have "scope_loop [Block a [ScopeOp ?r']] (Some (ScopeOp ?r')) d
      = scope_loop ?r' (get_last_op ?r') (Suc d)"
    by (simp add: scope_loop.simps [of "[Block a [ScopeOp ?r']]"])
  also have "\<dots> = Inr (Suc d + length as, case get_last_op inner of Some (ScopeOp b) \<Rightarrow> None | x \<Rightarrow> x)"
    by (rule Cons.IH)
  finally show ?case by (simp add: get_last_op_wrapped)
qed

lemma scope_loop_no_blocks:
  "as \<noteq> [] \<Longrightarrow>
   \<exists>e. scope_loop (in_trailing_scopes as []) (get_last_op (in_trailing_scopes as [])) d = Inl e"
proof (induction as arbitrary: d)
  case Nil
  then show ?case by simp
next
  case (Cons a as)
  let ?r' = "in_trailing_scopes as []"
  show ?case
  proof (cases "as = []")
    case True
    then have "process_scope [Block a [ScopeOp ?r']] ?r' d
        = Inl (UNDEFINED ''set_insertion_point_to_end of a region without blocks'')"
      by (simp add: process_scope_def hasOneBlock_def)
    then show ?thesis
      by (simp add: scope_loop.simps [of "[Block a [ScopeOp ?r']]"] get_last_op_wrapped)
  next
    case False
    then have ne: "?r' \<noteq> []" by (cases as) simp_all
    have "process_scope [Block a [ScopeOp ?r']] ?r' d = Inr (Suc d, get_last_op ?r')"
      using ne by (simp add: process_scope_def hasOneBlock_def)
    then have "scope_loop [Block a [ScopeOp ?r']] (Some (ScopeOp ?r')) d
        = scope_loop ?r' (get_last_op ?r') (Suc d)"
      by (simp add: scope_loop.simps [of "[Block a [ScopeOp ?r']]"])
    with Cons.IH [OF False, of "Suc d"] show ?thesis
      by (simp add: get_last_op_wrapped)
  qed
qed

lemma insert_at_end_trailing:
  "inner \<noteq> [] \<Longrightarrow>
   insert_at_end (length as) new (in_trailing_scopes as inner)
     = Inr (in_trailing_scopes as (append_to_last_block new inner))"
  by (induction as) (simp_all add: append_to_last_block_def)

lemma search_trailing:
  assumes "inner \<noteq> []" and "\<not> is_trailing_scope inner"
  shows "(if getOperations (last (in_trailing_scopes as inner)) \<noteq> []
          then scope_loop (in_trailing_scopes as inner)
                 (Some (last (getOperations (last (in_trailing_scopes as inner))))) 0
          else Inr (0, None))
    = Inr (length as, case get_last_op inner of Some (ScopeOp b) \<Rightarrow> None | x \<Rightarrow> x)"
proof (cases "getOperations (last (in_trailing_scopes as inner)) = []")
  case True
  then have as: "as = []" by (cases as) simp_all
  with True assms(1) have "get_last_op inner = None" by (simp add: get_last_op_def)
  with True as show ?thesis by simp
next
  case False
  let ?r = "in_trailing_scopes as inner"
  have "?r \<noteq> []" using assms(1) by (rule in_trailing_scopes_not_empty)
  with False have "get_last_op ?r = Some (last (getOperations (last ?r)))"
    by (simp add: get_last_op_def)
  with scope_loop_trailing [OF assms, of as 0] False show ?thesis by simp
qed

lemma terminate_function_body_trailing:
  assumes "inner \<noteq> []" and "\<not> is_trailing_scope inner"
  shows "terminate_function_body decl fty (in_trailing_scopes as inner)
    = (if last_op_is_terminator inner then Inr (in_trailing_scopes as inner)
       else case emit_function_terminator decl fty of
              Inl e \<Rightarrow> Inl e
            | Inr new \<Rightarrow> Inr (in_trailing_scopes as (append_to_last_block new inner)))"
proof -
  let ?r = "in_trailing_scopes as inner"
  let ?ops = "getOperations (last ?r)"
  let ?found = "case get_last_op inner of Some (ScopeOp b) \<Rightarrow> None | x \<Rightarrow> x"
  have ne: "?r \<noteq> []" using assms(1) by (rule in_trailing_scopes_not_empty)
  note search = search_trailing [OF assms, of as]
  have empty: "?ops = [] \<Longrightarrow> get_last_op inner = None"
  proof -
    assume e: "?ops = []"
    then have "as = []" by (cases as) simp_all
    with e assms(1) show ?thesis by (simp add: get_last_op_def)
  qed
  have cond: "(?ops = [] \<or> (case ?found of None \<Rightarrow> True | Some op \<Rightarrow> \<not> is_terminator op))
      \<longleftrightarrow> \<not> last_op_is_terminator inner"
  proof (cases "get_last_op inner")
    case None
    then show ?thesis by (simp add: last_op_is_terminator_def)
  next
    case (Some op)
    with empty have "?ops \<noteq> []" by auto
    with Some show ?thesis
      by (cases op) (simp_all add: last_op_is_terminator_def is_terminator_def)
  qed
  have "terminate_function_body decl fty ?r
      = (if ?ops = [] \<or> (case ?found of None \<Rightarrow> True | Some op \<Rightarrow> \<not> is_terminator op)
         then (case emit_function_terminator decl fty of
                 Inl e \<Rightarrow> Inl e
               | Inr new \<Rightarrow> insert_at_end (length as) new ?r)
         else Inr ?r)"
    unfolding terminate_function_body_def Let_def using ne search by simp
  also have "\<dots> = (if last_op_is_terminator inner then Inr ?r
       else case emit_function_terminator decl fty of
              Inl e \<Rightarrow> Inl e
            | Inr new \<Rightarrow> Inr (in_trailing_scopes as (append_to_last_block new inner)))"
    unfolding cond using assms(1)
    by (simp add: insert_at_end_trailing split: sum.split)
  finally show ?thesis .
qed

lemma terminate_function_body_no_blocks:
  assumes "innermost r = []"
  shows "\<exists>e. terminate_function_body decl fty r = Inl e"
proof -
  let ?as = "trailing_args r"
  have r: "r = in_trailing_scopes ?as []"
    using trailing_decomposition [of r] assms by simp
  show ?thesis
  proof (cases "?as = []")
    case True
    with r have "r = []" by simp
    then show ?thesis by (simp add: terminate_function_body_def)
  next
    case False
    then obtain a rest where as: "?as = a # rest" by (cases ?as) simp_all
    let ?body = "in_trailing_scopes rest []"
    have shape: "r = [Block a [ScopeOp ?body]]" using r as by simp
    from scope_loop_no_blocks [OF False, of 0] r
    obtain e where "scope_loop r (get_last_op r) 0 = Inl e" by auto
    then have "scope_loop r (Some (ScopeOp ?body)) 0 = Inl e"
      using shape get_last_op_wrapped [of a ?body] by simp
    then have "terminate_function_body decl fty [Block a [ScopeOp ?body]] = Inl e"
      using shape by (simp add: terminate_function_body_def)
    with shape show ?thesis by blast
  qed
qed

lemma ends_in_terminator_trailing:
  assumes "inner \<noteq> []" and "\<not> is_trailing_scope inner"
  shows "ends_in_terminator (in_trailing_scopes as inner) = last_op_is_terminator inner"
proof (cases "get_last_op inner")
  case None
  with scope_loop_trailing [OF assms, of as 0] show ?thesis
    by (simp add: ends_in_terminator_def last_op_is_terminator_def)
next
  case (Some op)
  with scope_loop_trailing [OF assms, of as 0] show ?thesis
    by (cases op) (simp_all add: ends_in_terminator_def last_op_is_terminator_def is_terminator_def)
qed

lemma emit_function_terminator_one:
  assumes "emit_function_terminator decl fty = Inr new"
  shows "new \<noteq> [] \<and> is_terminator (last new) \<and> length (filter is_terminator new) = 1"
  using assms
  by (auto simp: emit_function_terminator_def is_terminator_def split: if_splits list.splits)

lemma get_last_op_appended:
  "inner \<noteq> [] \<Longrightarrow> new \<noteq> [] \<Longrightarrow> get_last_op (append_to_last_block new inner) = Some (last new)"
  by (simp add: get_last_op_def append_to_last_block_def append_ops_def)

lemma trailing_scope_last_op:
  "is_trailing_scope r \<Longrightarrow> \<exists>b. get_last_op r = Some (ScopeOp b)"
  by (cases r rule: is_trailing_scope.cases) (simp_all add: get_last_op_def)

lemma appended_terminator:
  assumes "inner \<noteq> []" and "new \<noteq> []" and "is_terminator (last new)"
  shows "append_to_last_block new inner \<noteq> []
    \<and> \<not> is_trailing_scope (append_to_last_block new inner)
    \<and> last_op_is_terminator (append_to_last_block new inner)"
proof -
  have last: "get_last_op (append_to_last_block new inner) = Some (last new)"
    using assms(1,2) by (rule get_last_op_appended)
  have "\<not> is_trailing_scope (append_to_last_block new inner)"
  proof
    assume "is_trailing_scope (append_to_last_block new inner)"
    then obtain b where "get_last_op (append_to_last_block new inner) = Some (ScopeOp b)"
      using trailing_scope_last_op by blast
    with last have "last new = ScopeOp b" by simp
    with assms(3) show False by (simp add: is_terminator_def)
  qed
  moreover have "append_to_last_block new inner \<noteq> []"
    by (simp add: append_to_last_block_def)
  moreover have "last_op_is_terminator (append_to_last_block new inner)"
    using last assms(3) by (simp add: last_op_is_terminator_def)
  ultimately show ?thesis by simp
qed

lemma last_terminator_not_trailing:
  assumes "last_op_is_terminator r"
  shows "r \<noteq> [] \<and> \<not> is_trailing_scope r"
proof -
  from assms obtain op where op: "get_last_op r = Some op" and t: "is_terminator op"
    by (auto simp: last_op_is_terminator_def split: option.splits)
  from op have "r \<noteq> []" by (auto simp: get_last_op_def)
  moreover have "\<not> is_trailing_scope r"
  proof
    assume "is_trailing_scope r"
    then obtain b where "get_last_op r = Some (ScopeOp b)"
      using trailing_scope_last_op by blast
    with op t show False by (auto simp: is_terminator_def)
  qed
  ultimately show ?thesis by simp
qed

text \<open>
  C1 (as amended). After the body is lowered: if the last operation of the last block
  is a terminator, nothing is added. In general the last operation is looked up through
  trailing scopes (\<open>ends_in_terminator\<close>): if it is a terminator the blocks are returned
  unchanged; otherwise the operations of \<open>emit_function_terminator\<close> are created at the
  insertion point, exactly one of them a terminator, and it comes last. The terminator
  is an implicit return of the void constant for a void function, a return of the zero
  constant of the first result type for a non-void main, and unreachable otherwise. The
  result always ends in a terminator in that sense, and there is a result whenever no
  region on the way is without blocks and a non-void main has a result type.
\<close>

theorem function_body_terminator:
  "(last_op_is_terminator r \<longrightarrow> terminate_function_body decl fty r = Inr r)
   \<and> (terminate_function_body decl fty r = Inr r' \<longrightarrow>
        ends_in_terminator r'
        \<and> (ends_in_terminator r \<longrightarrow> r' = r)
        \<and> (\<not> ends_in_terminator r \<longrightarrow>
             (\<exists>new. emit_function_terminator decl fty = Inr new
                \<and> insert_at_end (length (trailing_args r)) new r = Inr r'
                \<and> length (filter is_terminator new) = 1 \<and> is_terminator (last new))))
   \<and> (getReturnType_isVoidType decl \<longrightarrow>
        emit_function_terminator decl fty
          = Inr [ConstantOp VoidValue, ImplicitReturnOp VoidValue])
   \<and> (\<not> getReturnType_isVoidType decl \<and> isMain decl \<and> getResults fty \<noteq> [] \<longrightarrow>
        emit_function_terminator decl fty
          = Inr [ConstantOp (IntegerValue (hd (getResults fty)) 0),
                 ReturnOp (IntegerValue (hd (getResults fty)) 0)])
   \<and> (\<not> getReturnType_isVoidType decl \<and> \<not> isMain decl \<longrightarrow>
        emit_function_terminator decl fty = Inr [UnreachableOp])
   \<and> (innermost r \<noteq> [] \<and> (\<not> getReturnType_isVoidType decl \<and> isMain decl \<longrightarrow> getResults fty \<noteq> [])
        \<longrightarrow> (\<exists>r'. terminate_function_body decl fty r = Inr r'))"
proof -
  let ?as = "trailing_args r" and ?inner = "innermost r"
  have r: "in_trailing_scopes ?as ?inner = r" and nt: "\<not> is_trailing_scope ?inner"
    using trailing_decomposition [of r] by simp_all
  have literal: "last_op_is_terminator r \<longrightarrow> terminate_function_body decl fty r = Inr r"
  proof
    assume t: "last_op_is_terminator r"
    then have "r \<noteq> []" and "\<not> is_trailing_scope r"
      using last_terminator_not_trailing by blast+
    from terminate_function_body_trailing [OF this, of decl fty "[]"] t
    show "terminate_function_body decl fty r = Inr r" by simp
  qed
  have result: "terminate_function_body decl fty r = Inr r' \<longrightarrow>
        ends_in_terminator r'
        \<and> (ends_in_terminator r \<longrightarrow> r' = r)
        \<and> (\<not> ends_in_terminator r \<longrightarrow>
             (\<exists>new. emit_function_terminator decl fty = Inr new
                \<and> insert_at_end (length (trailing_args r)) new r = Inr r'
                \<and> length (filter is_terminator new) = 1 \<and> is_terminator (last new)))"
  proof
    assume run: "terminate_function_body decl fty r = Inr r'"
    have ne: "?inner \<noteq> []"
    proof
      assume "?inner = []"
      then obtain e where "terminate_function_body decl fty r = Inl e"
        using terminate_function_body_no_blocks by blast
      with run show False by simp
    qed
    have ends: "ends_in_terminator r = last_op_is_terminator ?inner"
      using ends_in_terminator_trailing [OF ne nt, of ?as] r by simp
    note char = terminate_function_body_trailing [OF ne nt, of decl fty ?as]
    show "ends_in_terminator r'
        \<and> (ends_in_terminator r \<longrightarrow> r' = r)
        \<and> (\<not> ends_in_terminator r \<longrightarrow>
             (\<exists>new. emit_function_terminator decl fty = Inr new
                \<and> insert_at_end (length (trailing_args r)) new r = Inr r'
                \<and> length (filter is_terminator new) = 1 \<and> is_terminator (last new)))"
    proof (cases "last_op_is_terminator ?inner")
      case True
      with char run r have "r' = r" by simp
      with True ends show ?thesis by simp
    next
      case False
      with char run r obtain new where new: "emit_function_terminator decl fty = Inr new"
        and r': "r' = in_trailing_scopes ?as (append_to_last_block new ?inner)"
        by (cases "emit_function_terminator decl fty") simp_all
      note one = emit_function_terminator_one [OF new]
      from one have new_ne: "new \<noteq> []" and new_t: "is_terminator (last new)" by simp_all
      note app = appended_terminator [OF ne new_ne new_t]
      from app have a1: "append_to_last_block new ?inner \<noteq> []"
        and a2: "\<not> is_trailing_scope (append_to_last_block new ?inner)"
        and a3: "last_op_is_terminator (append_to_last_block new ?inner)" by simp_all
      have "ends_in_terminator r'"
        unfolding r' using ends_in_terminator_trailing [OF a1 a2, of ?as] a3 by simp
      moreover have "insert_at_end (length ?as) new r = Inr r'"
        using insert_at_end_trailing [OF ne, of ?as new] r r' by simp
      ultimately show ?thesis using False ends new one by simp
    qed
  qed
  have void: "getReturnType_isVoidType decl \<longrightarrow>
        emit_function_terminator decl fty
          = Inr [ConstantOp VoidValue, ImplicitReturnOp VoidValue]"
    by (simp add: emit_function_terminator_def)
  have main: "\<not> getReturnType_isVoidType decl \<and> isMain decl \<and> getResults fty \<noteq> [] \<longrightarrow>
        emit_function_terminator decl fty
          = Inr [ConstantOp (IntegerValue (hd (getResults fty)) 0),
                 ReturnOp (IntegerValue (hd (getResults fty)) 0)]"
    by (cases "getResults fty") (simp_all add: emit_function_terminator_def)
  have other: "\<not> getReturnType_isVoidType decl \<and> \<not> isMain decl \<longrightarrow>
        emit_function_terminator decl fty = Inr [UnreachableOp]"
    by (simp add: emit_function_terminator_def)
  have total: "innermost r \<noteq> [] \<and> (\<not> getReturnType_isVoidType decl \<and> isMain decl \<longrightarrow> getResults fty \<noteq> [])
        \<longrightarrow> (\<exists>r'. terminate_function_body decl fty r = Inr r')"
  proof
    assume a: "innermost r \<noteq> [] \<and> (\<not> getReturnType_isVoidType decl \<and> isMain decl \<longrightarrow> getResults fty \<noteq> [])"
    then have ne: "?inner \<noteq> []" by simp
    have "\<exists>new. emit_function_terminator decl fty = Inr new"
    proof (cases "getReturnType_isVoidType decl")
      case True
      with void show ?thesis by simp
    next
      case nonvoid: False
      show ?thesis
      proof (cases "isMain decl")
        case True
        with nonvoid a main show ?thesis by simp
      next
        case False
        with nonvoid other show ?thesis by simp
      qed
    qed
    then obtain new where new: "emit_function_terminator decl fty = Inr new" by (rule exE)
    from terminate_function_body_trailing [OF ne nt, of decl fty ?as] r new
    show "\<exists>r'. terminate_function_body decl fty r = Inr r'" by simp
  qed
  from literal result void main other total show ?thesis by (intro conjI)
qed

theorem function_body_terminator_witness:
  "innermost [Block [] [OtherOp ''hl.call'' False]] \<noteq> []
   \<and> \<not> ends_in_terminator [Block [] [OtherOp ''hl.call'' False]]
   \<and> terminate_function_body (plain_function\<lparr>isMain := True\<rparr>)
        \<lparr>getInputs = [], getResults = [32], isVarArg = False\<rparr>
        [Block [] [OtherOp ''hl.call'' False]]
      = Inr [Block [] [OtherOp ''hl.call'' False, ConstantOp (IntegerValue 32 0),
                       ReturnOp (IntegerValue 32 0)]]
   \<and> ends_in_terminator [Block [] [OtherOp ''hl.call'' False, ConstantOp (IntegerValue 32 0),
                       ReturnOp (IntegerValue 32 0)]]
   \<and> terminate_function_body (plain_function\<lparr>isMain := True\<rparr>)
        \<lparr>getInputs = [], getResults = [32], isVarArg = False\<rparr>
        [Block [] [OtherOp ''hl.call'' False, ConstantOp (IntegerValue 32 0),
                   ReturnOp (IntegerValue 32 0)]]
      = Inr [Block [] [OtherOp ''hl.call'' False, ConstantOp (IntegerValue 32 0),
                       ReturnOp (IntegerValue 32 0)]]"
proof -
  let ?d = "plain_function\<lparr>isMain := True\<rparr>"
  let ?f = "\<lparr>getInputs = [], getResults = [32::nat], isVarArg = False\<rparr>"
  let ?r = "[Block [] [OtherOp ''hl.call'' False]]"
  let ?r' = "[Block [] [OtherOp ''hl.call'' False, ConstantOp (IntegerValue 32 0),
                       ReturnOp (IntegerValue 32 0)]]"
  have inner: "innermost ?r \<noteq> []" by simp
  have before: "\<not> ends_in_terminator ?r"
    by (simp add: ends_in_terminator_def get_last_op_def scope_loop.simps is_terminator_def)
  have run: "terminate_function_body ?d ?f ?r = Inr ?r'"
    by (simp add: terminate_function_body_def scope_loop.simps is_terminator_def
        emit_function_terminator_def plain_function_def append_ops_def)
  have last: "last_op_is_terminator ?r'"
    by (simp add: last_op_is_terminator_def get_last_op_def is_terminator_def)
  from function_body_terminator [of ?r ?d ?f ?r'] run
  have after: "ends_in_terminator ?r'" by blast
  from function_body_terminator [of ?r' ?d ?f ?r'] last
  have again: "terminate_function_body ?d ?f ?r' = Inr ?r'" by blast
  from inner before run after again show ?thesis by (intro conjI)
qed

text \<open>
  The claim as it was stated fails on a body that ends in a trailing scope: the last
  operation of the last block is the scope, not a terminator, yet nothing is
  synthesized, because the scope's own last operation is a return; the last block of
  the function still ends in the scope.
\<close>

theorem function_body_terminator_counterexample:
  "\<not> last_op_is_terminator [Block [] [ScopeOp [Block [] [ReturnOp (OpResult 0)]]]]
   \<and> terminate_function_body plain_function
        \<lparr>getInputs = [], getResults = [32], isVarArg = False\<rparr>
        [Block [] [ScopeOp [Block [] [ReturnOp (OpResult 0)]]]]
      = Inr [Block [] [ScopeOp [Block [] [ReturnOp (OpResult 0)]]]]"
  by (simp add: last_op_is_terminator_def get_last_op_def is_terminator_def
      terminate_function_body_def scope_loop.simps process_scope_def hasOneBlock_def)

text \<open>
  C7 (as amended). The search enters a scope when the scope is the only operation of the
  only block of the region that holds it (\<open>process_scope\<close> looks at the parent region,
  not at the scope's own blocks), and goes on from the last operation of the scope's
  last block; \<open>trailing_args\<close> and \<open>innermost\<close> follow exactly these scopes. The loop ends
  at the depth of the innermost such scope, and a synthesized terminator is appended to
  the last block inside it. A last operation that is a scope but is not alone in its
  region is not entered: the search ends with null and the terminator is created after
  the scope.
\<close>

theorem trailing_scope_terminator:
  "innermost r \<noteq> [] \<longrightarrow>
     scope_loop r (get_last_op r) 0
       = Inr (length (trailing_args r),
              case get_last_op (innermost r) of Some (ScopeOp b) \<Rightarrow> None | x \<Rightarrow> x)
     \<and> terminate_function_body decl fty r
       = (if last_op_is_terminator (innermost r) then Inr r
          else case emit_function_terminator decl fty of
                 Inl e \<Rightarrow> Inl e
               | Inr new \<Rightarrow>
                   Inr (in_trailing_scopes (trailing_args r)
                          (append_to_last_block new (innermost r))))"
proof
  assume ne: "innermost r \<noteq> []"
  have r: "in_trailing_scopes (trailing_args r) (innermost r) = r"
    and nt: "\<not> is_trailing_scope (innermost r)"
    using trailing_decomposition [of r] by simp_all
  from scope_loop_trailing [OF ne nt, of "trailing_args r" 0]
    terminate_function_body_trailing [OF ne nt, of decl fty "trailing_args r"] r
  show "scope_loop r (get_last_op r) 0
       = Inr (length (trailing_args r),
              case get_last_op (innermost r) of Some (ScopeOp b) \<Rightarrow> None | x \<Rightarrow> x)
     \<and> terminate_function_body decl fty r
       = (if last_op_is_terminator (innermost r) then Inr r
          else case emit_function_terminator decl fty of
                 Inl e \<Rightarrow> Inl e
               | Inr new \<Rightarrow>
                   Inr (in_trailing_scopes (trailing_args r)
                          (append_to_last_block new (innermost r))))"
    by simp
qed

theorem trailing_scope_terminator_witness:
  "innermost [Block [] [ScopeOp [Block [] [OtherOp ''hl.var'' False, OtherOp ''hl.call'' False]]]]
     \<noteq> []
   \<and> terminate_function_body plain_function
        \<lparr>getInputs = [], getResults = [32], isVarArg = False\<rparr>
        [Block [] [ScopeOp [Block [] [OtherOp ''hl.var'' False, OtherOp ''hl.call'' False]]]]
      = Inr [Block [] [ScopeOp [Block [] [OtherOp ''hl.var'' False, OtherOp ''hl.call'' False,
                                          UnreachableOp]]]]"
proof -
  let ?r = "[Block [] [ScopeOp [Block [] [OtherOp ''hl.var'' False, OtherOp ''hl.call'' False]]]]"
  let ?f = "\<lparr>getInputs = [], getResults = [32::nat], isVarArg = False\<rparr>"
  have ne: "innermost ?r \<noteq> []" by simp
  from trailing_scope_terminator [of ?r plain_function ?f] ne
  have "terminate_function_body plain_function ?f ?r
       = (if last_op_is_terminator (innermost ?r) then Inr ?r
          else case emit_function_terminator plain_function ?f of
                 Inl e \<Rightarrow> Inl e
               | Inr new \<Rightarrow>
                   Inr (in_trailing_scopes (trailing_args ?r)
                          (append_to_last_block new (innermost ?r))))"
    by blast
  then have "terminate_function_body plain_function ?f ?r
      = Inr [Block [] [ScopeOp [Block [] [OtherOp ''hl.var'' False, OtherOp ''hl.call'' False,
                                          UnreachableOp]]]]"
    by (simp add: last_op_is_terminator_def get_last_op_def is_terminator_def
        emit_function_terminator_def plain_function_def append_to_last_block_def append_ops_def)
  with ne show ?thesis by (intro conjI)
qed

text \<open>
  The claim as it was stated fails: here the last operation of the function's last
  block is a scope whose own last block holds exactly one operation, but the scope is
  not alone in the function's block, so it is not entered and the terminator is created
  after the scope, not inside it.
\<close>

theorem trailing_scope_terminator_counterexample:
  "length (getOperations (last [Block [] [OtherOp ''hl.call'' False]])) = 1
   \<and> terminate_function_body plain_function
        \<lparr>getInputs = [], getResults = [32], isVarArg = False\<rparr>
        [Block [] [OtherOp ''hl.var'' False, ScopeOp [Block [] [OtherOp ''hl.call'' False]]]]
      = Inr [Block [] [OtherOp ''hl.var'' False, ScopeOp [Block [] [OtherOp ''hl.call'' False]],
                       UnreachableOp]]
   \<and> terminate_function_body plain_function
        \<lparr>getInputs = [], getResults = [32], isVarArg = False\<rparr>
        [Block [] [OtherOp ''hl.var'' False, ScopeOp [Block [] [OtherOp ''hl.call'' False]]]]
      \<noteq> Inr [Block [] [OtherOp ''hl.var'' False,
                       ScopeOp [Block [] [OtherOp ''hl.call'' False, UnreachableOp]]]]"
  by (simp add: terminate_function_body_def scope_loop.simps process_scope_def hasOneBlock_def
      emit_function_terminator_def plain_function_def append_ops_def)


subsection \<open>Scoped tables and declare\<close>

lemma table_lookup_insert:
  "table_insert key v table = Inr table' \<Longrightarrow>
   table_lookup table' k = (if k = key then Some v else table_lookup table k)"
  by (cases table) (auto split: option.splits)

lemma table_insert_open:
  "table \<noteq> [] \<Longrightarrow> \<exists>table'. table_insert key v table = Inr table'"
  by (cases table) simp_all






subsection \<open>Parameters of a function definition\<close>







subsection \<open>A parameter that is not declared\<close>

text \<open>
  C8. When the parameter has no binding in \<open>vars\<close>, \<open>VisitParmVarDecl\<close> returns normally
  with a null operation; the context is unchanged but for one error appended to what
  was reported. The visit is not fatal: a loop over declarations in which this visit
  occurs goes on with the declarations that follow, from that context.
\<close>

theorem missing_parameter_is_recoverable:
  "table_lookup (vars ctx) (parm_id decl) = None \<longrightarrow>
     VisitParmVarDecl decl ctx
       = (None, ctx\<lparr>errors := errors ctx
                     @ [''error: missing parameter declaration '' @ parm_name decl]\<rparr>)
     \<and> (\<forall>visit d rest. visit d ctx = Inr (VisitParmVarDecl decl ctx) \<longrightarrow>
           VisitTranslationUnitDecl visit (d # rest) ctx
             = VisitTranslationUnitDecl visit rest
                 (ctx\<lparr>errors := errors ctx
                     @ [''error: missing parameter declaration '' @ parm_name decl]\<rparr>))"
proof
  assume "table_lookup (vars ctx) (parm_id decl) = None"
  then have visit: "VisitParmVarDecl decl ctx
       = (None, ctx\<lparr>errors := errors ctx
                     @ [''error: missing parameter declaration '' @ parm_name decl]\<rparr>)"
    by (simp add: VisitParmVarDecl_def context_error_def)
  then show "VisitParmVarDecl decl ctx
       = (None, ctx\<lparr>errors := errors ctx
                     @ [''error: missing parameter declaration '' @ parm_name decl]\<rparr>)
     \<and> (\<forall>visit d rest. visit d ctx = Inr (VisitParmVarDecl decl ctx) \<longrightarrow>
           VisitTranslationUnitDecl visit (d # rest) ctx
             = VisitTranslationUnitDecl visit rest
                 (ctx\<lparr>errors := errors ctx
                     @ [''error: missing parameter declaration '' @ parm_name decl]\<rparr>))"
    by simp
qed

theorem missing_parameter_is_recoverable_witness:
  "table_lookup (vars fresh_context) (parm_id \<lparr>parm_id = 3, parm_name = ''x''\<rparr>) = None
   \<and> VisitParmVarDecl \<lparr>parm_id = 3, parm_name = ''x''\<rparr> fresh_context
     = (None, fresh_context\<lparr>errors := [''error: missing parameter declaration x'']\<rparr>)
   \<and> VisitTranslationUnitDecl (\<lambda>d c. Inr (VisitParmVarDecl d c))
        [\<lparr>parm_id = 3, parm_name = ''x''\<rparr>, \<lparr>parm_id = 4, parm_name = ''y''\<rparr>] fresh_context
     = Inr (None, fresh_context\<lparr>errors := [''error: missing parameter declaration x'',
                                             ''error: missing parameter declaration y'']\<rparr>)"
proof -
  let ?x = "\<lparr>parm_id = 3, parm_name = ''x''\<rparr>" and ?y = "\<lparr>parm_id = 4, parm_name = ''y''\<rparr>"
  let ?v = "\<lambda>d c. Inr (VisitParmVarDecl d c) :: fatal + (op_id option \<times> codegen_context)"
  have unbound: "table_lookup (vars fresh_context) (parm_id ?x) = None"
    by (simp add: fresh_context_def)
  have errs: "errors fresh_context = []" by (simp add: fresh_context_def)
  note both = missing_parameter_is_recoverable [of fresh_context ?x, THEN mp, OF unbound]
  note one = both [THEN conjunct1]
  note loop = both [THEN conjunct2, rule_format]
  from one errs have one': "VisitParmVarDecl ?x fresh_context
     = (None, fresh_context\<lparr>errors := [''error: missing parameter declaration x'']\<rparr>)"
    by simp
  have "?v ?x fresh_context = Inr (VisitParmVarDecl ?x fresh_context)" by simp
  then have "VisitTranslationUnitDecl ?v [?x, ?y] fresh_context
      = VisitTranslationUnitDecl ?v [?y]
          (fresh_context\<lparr>errors := errors fresh_context
                     @ [''error: missing parameter declaration '' @ parm_name ?x]\<rparr>)"
    by (rule loop)
  also have "\<dots> = Inr (None, fresh_context\<lparr>errors := [''error: missing parameter declaration x'',
                                             ''error: missing parameter declaration y'']\<rparr>)"
    by (simp add: VisitParmVarDecl_def context_error_def fresh_context_def)
  finally show ?thesis using unbound one' by (intro conjI)
qed


subsection \<open>The resolver of function globals\<close>

lemma make_operation_ledger:
  "make_operation op ctx = (new, ctx') \<Longrightarrow>
   diagnostics ctx' = diagnostics ctx
   \<and> diagnosed_conflicting_definitions ctx' = diagnosed_conflicting_definitions ctx
   \<and> deferred_decls ctx' = deferred_decls ctx
   \<and> deferred_decls_to_emit ctx' = deferred_decls_to_emit ctx
   \<and> default_methods_to_emit ctx' = default_methods_to_emit ctx
   \<and> global_values ctx' = global_values ctx
   \<and> new = length (module_ops ctx) \<and> length (module_ops ctx') = Suc (length (module_ops ctx))"
  by (auto simp: make_operation_def Let_def split: option.splits)

lemma declare_function_ledger:
  assumes declared: "context_declare global_values (\<lambda>table c. c\<lparr>global_values := table\<rparr>)
      mangled_name (\<lambda>c. Inr (make_operation op c)) ctx = Inr (fn, ctx1)"
  shows "diagnostics ctx1 = diagnostics ctx
   \<and> diagnosed_conflicting_definitions ctx1 = diagnosed_conflicting_definitions ctx
   \<and> deferred_decls ctx1 = deferred_decls ctx
   \<and> deferred_decls_to_emit ctx1 = deferred_decls_to_emit ctx
   \<and> default_methods_to_emit ctx1 = default_methods_to_emit ctx
   \<and> table_lookup (global_values ctx1) mangled_name = Some fn"
proof (cases "table_lookup (global_values ctx) mangled_name")
  case (Some v)
  with declared show ?thesis by (simp add: context_declare_def)
next
  case None
  obtain new made where made: "make_operation op ctx = (new, made)"
    by (cases "make_operation op ctx")
  with declared None obtain table where
    ins: "table_insert mangled_name new (global_values made) = Inr table"
    and fn: "fn = new" and ctx1: "ctx1 = made\<lparr>global_values := table\<rparr>"
    by (auto simp: context_declare_def split: sum.splits)
  from table_lookup_insert [OF ins, of mangled_name]
  have "table_lookup table mangled_name = Some new" by simp
  with make_operation_ledger [OF made] fn ctx1 show ?thesis by simp
qed

lemma create_vast_function_ledger:
  assumes "create_vast_function env mangled_name fty function_decl ctx = (r, ctx')"
  shows "diagnostics ctx' = diagnostics ctx
   \<and> diagnosed_conflicting_definitions ctx' = diagnosed_conflicting_definitions ctx
   \<and> deferred_decls ctx' = deferred_decls ctx
   \<and> deferred_decls_to_emit ctx' = deferred_decls_to_emit ctx
   \<and> default_methods_to_emit ctx' = default_methods_to_emit ctx
   \<and> (\<forall>fn. r = Inr fn \<longrightarrow> table_lookup (global_values ctx') mangled_name = Some fn)"
proof -
  let ?op = "make_FuncOp mangled_name fty
      (get_function_linkage env \<lparr>getDecl = Some (function_id function_decl), global_kind = NoKind\<rparr>)"
  let ?declared = "context_declare global_values (\<lambda>table c. c\<lparr>global_values := table\<rparr>)
      mangled_name (\<lambda>c. Inr (make_operation ?op c) :: fatal + (op_id \<times> codegen_context)) ctx"
  show ?thesis
  proof (cases ?declared)
    case (Inl e)
    with assms show ?thesis by (auto simp: create_vast_function_def Let_def)
  next
    case (Inr made)
    obtain fn ctx1 where made: "made = (fn, ctx1)" by (cases made)
    with Inr have declared: "?declared = Inr (fn, ctx1)" by simp
    note ledger1 = declare_function_ledger [OF declared]
    from assms declared have "(ctx' = ctx1 \<and> (\<forall>g. r \<noteq> Inr g))
        \<or> (\<exists>op. ctx' = set_op fn op ctx1 \<and> (\<forall>g. r \<noteq> Inr g))
        \<or> (\<exists>op. ctx' = (set_op fn op ctx1)\<lparr>insertion_point := insertion_point ctx\<rparr> \<and> r = Inr fn)"
      by (auto simp: create_vast_function_def Let_def split: option.splits sum.splits if_splits)
    then consider (failed) "ctx' = ctx1" "\<forall>g. r \<noteq> Inr g"
      | (checked) op where "ctx' = set_op fn op ctx1" "\<forall>g. r \<noteq> Inr g"
      | (made) op where "ctx' = (set_op fn op ctx1)\<lparr>insertion_point := insertion_point ctx\<rparr>"
          "r = Inr fn"
      by blast
    then show ?thesis
    proof cases
      case failed
      with ledger1 show ?thesis by simp
    next
      case checked
      with ledger1 show ?thesis by (simp add: set_op_def)
    next
      case made
      with ledger1 show ?thesis by (simp add: set_op_def)
    qed
  qed
qed

lemma walk_redecls_ledger:
  "diagnostics (walk_redecls env glob ds ctx) = diagnostics ctx
   \<and> diagnosed_conflicting_definitions (walk_redecls env glob ds ctx)
       = diagnosed_conflicting_definitions ctx
   \<and> deferred_decls (walk_redecls env glob ds ctx) = deferred_decls ctx
   \<and> global_values (walk_redecls env glob ds ctx) = global_values ctx"
  by (induction ds)
    (simp_all add: add_default_methods_to_emit_def add_deferred_decl_to_emit_def)

lemma walk_redecls_first:
  "walk_redecls env glob ds ctx =
     (case find (\<lambda>d. lexicalDeclContext_isCXXRecordDecl (ast env d)
                    \<and> doesThisDeclarationHaveABody (ast env d)) ds of
        None \<Rightarrow> ctx
      | Some d \<Rightarrow>
          if is_defaulted_method (ast env d)
          then add_default_methods_to_emit (getWithDecl glob d) ctx
          else add_deferred_decl_to_emit (getWithDecl glob d) ctx)"
  by (induction ds) simp_all

lemma defer_emission_ledger:
  assumes "defer_emission env mangled_name glob ctx = Inr ctx'"
  shows "diagnostics ctx' = diagnostics ctx
   \<and> diagnosed_conflicting_definitions ctx' = diagnosed_conflicting_definitions ctx
   \<and> global_values ctx' = global_values ctx"
  using assms walk_redecls_ledger [of env glob _ ctx]
  by (auto simp: defer_emission_def add_deferred_decl_to_emit_def
      split: if_splits option.splits)

lemma diagnose_conflict_diagnosed:
  assumes "diagnose_conflict env mangled_name glob emit fn ctx = Inr ctx'"
  shows "diagnosed_conflicting_definitions ctx \<subseteq> diagnosed_conflicting_definitions ctx'
   \<and> (glob \<in> diagnosed_conflicting_definitions ctx \<longrightarrow> diagnostics ctx' = diagnostics ctx)"
  using assms
  by (auto simp: diagnose_conflict_def record_conflicting_definition_def report_def
      split: if_splits option.splits prod.splits bool.splits)

lemma resolver_keeps_diagnosed:
  "diagnosed_conflicting_definitions ctx
     \<subseteq> diagnosed_conflicting_definitions
         (snd (get_or_create_vast_function env mangled_name ty glob emit ctx))"
proof -
  have existing: "\<And>fn ctx1. diagnose_conflict env mangled_name glob emit fn ctx = Inr ctx1 \<Longrightarrow>
      diagnosed_conflicting_definitions ctx \<subseteq> diagnosed_conflicting_definitions ctx1"
    using diagnose_conflict_diagnosed by blast
  have created: "\<And>fty d r ctx1. create_vast_function env mangled_name fty d ctx = (r, ctx1) \<Longrightarrow>
      diagnosed_conflicting_definitions ctx1 = diagnosed_conflicting_definitions ctx"
    using create_vast_function_ledger by blast
  have deferred: "\<And>fty d r ctx1 ctx2.
      create_vast_function env mangled_name fty d ctx = (r, ctx1) \<Longrightarrow>
      defer_emission env mangled_name glob ctx1 = Inr ctx2 \<Longrightarrow>
      diagnosed_conflicting_definitions ctx2 = diagnosed_conflicting_definitions ctx"
    using defer_emission_ledger create_vast_function_ledger by metis
  show ?thesis
    unfolding get_or_create_vast_function_def
    by (auto split: option.splits sum.splits vast_type.splits prod.splits
        dest: existing created deferred)
qed

lemma resolver_reports_nothing:
  assumes "glob \<in> diagnosed_conflicting_definitions ctx"
  shows "diagnostics (snd (get_or_create_vast_function env mangled_name ty glob emit ctx))
    = diagnostics ctx"
proof -
  have existing: "\<And>fn ctx1. diagnose_conflict env mangled_name glob emit fn ctx = Inr ctx1 \<Longrightarrow>
      diagnostics ctx1 = diagnostics ctx"
    using diagnose_conflict_diagnosed assms by blast
  have created: "\<And>fty d r ctx1. create_vast_function env mangled_name fty d ctx = (r, ctx1) \<Longrightarrow>
      diagnostics ctx1 = diagnostics ctx"
    using create_vast_function_ledger by blast
  have deferred: "\<And>fty d r ctx1 ctx2.
      create_vast_function env mangled_name fty d ctx = (r, ctx1) \<Longrightarrow>
      defer_emission env mangled_name glob ctx1 = Inr ctx2 \<Longrightarrow>
      diagnostics ctx2 = diagnostics ctx"
    using defer_emission_ledger create_vast_function_ledger by metis
  show ?thesis
    unfolding get_or_create_vast_function_def
    by (auto split: option.splits sum.splits vast_type.splits prod.splits
        dest: existing created deferred)
qed

lemma resolve_all_keeps_diagnosed:
  "glob \<in> diagnosed_conflicting_definitions ctx \<Longrightarrow>
   glob \<in> diagnosed_conflicting_definitions (resolve_all env calls ctx)"
proof (induction calls arbitrary: ctx)
  case Nil
  then show ?case by simp
next
  case (Cons c calls)
  obtain n t g e where c: "c = (n, t, g, e)" by (cases c)
  have "glob \<in> diagnosed_conflicting_definitions (resolve env c ctx)"
    using Cons.prems resolver_keeps_diagnosed [of ctx env n t g e] c
    by (auto simp: resolve_def)
  then show ?case using Cons.IH by simp
qed

lemma resolve_all_reports_nothing:
  "glob \<in> diagnosed_conflicting_definitions ctx \<Longrightarrow> \<forall>c\<in>set calls. call_glob c = glob \<Longrightarrow>
   diagnostics (resolve_all env calls ctx) = diagnostics ctx"
proof (induction calls arbitrary: ctx)
  case Nil
  then show ?case by simp
next
  case (Cons c calls)
  obtain n t g e where c: "c = (n, t, g, e)" by (cases c)
  with Cons.prems(2) have g: "g = glob" by (simp add: call_glob_def)
  have kept: "glob \<in> diagnosed_conflicting_definitions (resolve env c ctx)"
    using Cons.prems(1) resolver_keeps_diagnosed [of ctx env n t g e] c
    by (auto simp: resolve_def)
  have same: "diagnostics (resolve env c ctx) = diagnostics ctx"
    using resolver_reports_nothing [OF Cons.prems(1), of env n t e] c g
    by (simp add: resolve_def)
  have rest: "\<forall>c\<in>set calls. call_glob c = glob" using Cons.prems(2) by simp
  from Cons.IH [OF kept rest] same show ?case by simp
qed

lemma first_conflict_report:
  assumes "second_definition env mangled_name glob emit ctx"
    and "glob \<notin> diagnosed_conflicting_definitions ctx"
  shows "diagnostics (snd (get_or_create_vast_function env mangled_name ty glob emit ctx))
      = diagnostics ctx @ conflict_report env mangled_name glob
    \<and> glob \<in> diagnosed_conflicting_definitions
        (snd (get_or_create_vast_function env mangled_name ty glob emit ctx))"
proof -
  from assms(1) obtain decl entry fn other other_decl where
    emit: "\<not> for_vtable emit" "\<not> thunk emit" "is_for_definition emit"
    and omp: "\<not> OpenMPIsTargetDevice env"
    and decl: "getDecl glob = Some decl" "\<not> isMultiVersion (ast env decl)"
      "canonical_decl (ast env decl) \<noteq> None"
    and entry: "get_global_value ctx mangled_name = Some entry"
      "entry \<notin> weak_ref_references ctx" "get_func ctx entry = Some fn" "fn_body fn \<noteq> []"
    and other: "lookup_representative_decl env mangled_name = Some other"
      "getDecl other = Some other_decl"
    by (auto simp: second_definition_def split: option.splits)
  let ?ctx1 = "report (note_previous_definition (getLocation (ast env other_decl)))
      (report (err_duplicate_mangled_name (getLocation (ast env decl)) mangled_name)
        (ctx\<lparr>diagnosed_conflicting_definitions :=
                insert glob (diagnosed_conflicting_definitions ctx)\<rparr>))"
  have checked: "diagnose_conflict env mangled_name glob emit fn ctx = Inr ?ctx1"
    using emit decl entry other assms(2)
    by (simp add: diagnose_conflict_def record_conflicting_definition_def)
  have "snd (get_or_create_vast_function env mangled_name ty glob emit ctx) = ?ctx1"
    using emit omp decl entry checked by (simp add: get_or_create_vast_function_def)
  moreover have "conflict_report env mangled_name glob
      = [err_duplicate_mangled_name (getLocation (ast env decl)) mangled_name,
         note_previous_definition (getLocation (ast env other_decl))]"
    using decl other by (simp add: conflict_report_def)
  ultimately show ?thesis by (simp add: report_def)
qed

lemma diagnose_conflict_step:
  assumes "diagnose_conflict env mangled_name glob emit fn ctx = Inr ctx'"
  shows "diagnostics ctx' = diagnostics ctx
    \<or> (glob \<notin> diagnosed_conflicting_definitions ctx
        \<and> diagnostics ctx' = diagnostics ctx @ conflict_report env mangled_name glob
        \<and> diagnosed_conflicting_definitions ctx'
            = insert glob (diagnosed_conflicting_definitions ctx))"
  using assms
  by (auto simp: diagnose_conflict_def record_conflicting_definition_def report_def
      conflict_report_def split: if_splits option.splits prod.splits bool.splits)

lemma resolver_report_step:
  "diagnostics (snd (get_or_create_vast_function env mangled_name ty glob emit ctx))
      = diagnostics ctx
    \<or> (glob \<notin> diagnosed_conflicting_definitions ctx
        \<and> diagnostics (snd (get_or_create_vast_function env mangled_name ty glob emit ctx))
            = diagnostics ctx @ conflict_report env mangled_name glob
        \<and> diagnosed_conflicting_definitions
              (snd (get_or_create_vast_function env mangled_name ty glob emit ctx))
            = insert glob (diagnosed_conflicting_definitions ctx))"
proof (cases "get_global_value ctx mangled_name")
  case None
  have created: "\<And>fty d r ctx1. create_vast_function env mangled_name fty d ctx = (r, ctx1) \<Longrightarrow>
      diagnostics ctx1 = diagnostics ctx"
    using create_vast_function_ledger by blast
  have deferred: "\<And>fty d r ctx1 ctx2.
      create_vast_function env mangled_name fty d ctx = (r, ctx1) \<Longrightarrow>
      defer_emission env mangled_name glob ctx1 = Inr ctx2 \<Longrightarrow>
      diagnostics ctx2 = diagnostics ctx"
    using defer_emission_ledger create_vast_function_ledger by metis
  have "diagnostics (snd (get_or_create_vast_function env mangled_name ty glob emit ctx))
      = diagnostics ctx"
    using None unfolding get_or_create_vast_function_def
    by (auto split: option.splits sum.splits vast_type.splits prod.splits
        dest: created deferred)
  then show ?thesis by simp
next
  case (Some entry)
  let ?after = "snd (get_or_create_vast_function env mangled_name ty glob emit ctx)"
  show ?thesis
  proof (cases "for_vtable emit \<or> thunk emit
      \<or> (getDecl glob \<noteq> None \<and> OpenMPIsTargetDevice env)
      \<or> (case getDecl glob of None \<Rightarrow> False | Some decl \<Rightarrow> isMultiVersion (ast env decl))
      \<or> get_func ctx entry = None \<or> entry \<in> weak_ref_references ctx")
    case True
    then have "diagnostics ?after = diagnostics ctx"
      using Some unfolding get_or_create_vast_function_def
      by (auto split: option.splits)
    then show ?thesis by simp
  next
    case False
    then obtain fn where fn: "get_func ctx entry = Some fn" by auto
    show ?thesis
    proof (cases "diagnose_conflict env mangled_name glob emit fn ctx")
      case (Inl e)
      with False Some fn have "?after = ctx"
        by (auto simp: get_or_create_vast_function_def)
      then show ?thesis by simp
    next
      case (Inr ctx1)
      with False Some fn have "?after = ctx1"
        by (auto simp: get_or_create_vast_function_def)
      with diagnose_conflict_step [OF Inr] show ?thesis by simp
    qed
  qed
qed

lemma first_conflict_context:
  assumes "second_definition env mangled_name glob emit ctx"
    and "glob \<notin> diagnosed_conflicting_definitions ctx"
  shows "snd (get_or_create_vast_function env mangled_name ty glob emit ctx)
      = ctx\<lparr>diagnosed_conflicting_definitions := insert glob (diagnosed_conflicting_definitions ctx),
            diagnostics := diagnostics ctx @ conflict_report env mangled_name glob\<rparr>"
proof -
  from assms(1) obtain decl entry fn other other_decl where
    emit: "\<not> for_vtable emit" "\<not> thunk emit" "is_for_definition emit"
    and omp: "\<not> OpenMPIsTargetDevice env"
    and decl: "getDecl glob = Some decl" "\<not> isMultiVersion (ast env decl)"
      "canonical_decl (ast env decl) \<noteq> None"
    and entry: "get_global_value ctx mangled_name = Some entry"
      "entry \<notin> weak_ref_references ctx" "get_func ctx entry = Some fn" "fn_body fn \<noteq> []"
    and other: "lookup_representative_decl env mangled_name = Some other"
      "getDecl other = Some other_decl"
    by (auto simp: second_definition_def split: option.splits)
  let ?ctx1 = "report (note_previous_definition (getLocation (ast env other_decl)))
      (report (err_duplicate_mangled_name (getLocation (ast env decl)) mangled_name)
        (ctx\<lparr>diagnosed_conflicting_definitions :=
                insert glob (diagnosed_conflicting_definitions ctx)\<rparr>))"
  have checked: "diagnose_conflict env mangled_name glob emit fn ctx = Inr ?ctx1"
    using emit decl entry other assms(2)
    by (simp add: diagnose_conflict_def record_conflicting_definition_def)
  have "snd (get_or_create_vast_function env mangled_name ty glob emit ctx) = ?ctx1"
    using emit omp decl entry checked by (simp add: get_or_create_vast_function_def)
  moreover have "conflict_report env mangled_name glob
      = [err_duplicate_mangled_name (getLocation (ast env decl)) mangled_name,
         note_previous_definition (getLocation (ast env other_decl))]"
    using decl other by (simp add: conflict_report_def)
  ultimately show ?thesis by (simp add: report_def)
qed

lemma second_definition_after:
  assumes "second_definition env mangled_name glob' emit' ctx"
  shows "second_definition env mangled_name glob' emit'
      (ctx\<lparr>diagnosed_conflicting_definitions := diagnosed, diagnostics := reported\<rparr>)"
proof -
  have "get_func (ctx\<lparr>diagnosed_conflicting_definitions := diagnosed, diagnostics := reported\<rparr>)
      = get_func ctx"
    by (rule ext) (simp add: get_func_def)
  with assms show ?thesis
    by (simp add: second_definition_def get_global_value_def cong: option.case_cong)
qed

text \<open>
  C4 (as amended). The diagnostic pair is reported once for each offending GlobalDecl
  (a declaration with its kind, the key that is inserted into the diagnosed set), not
  once for the mangled name. Every call of the resolver reports nothing, or reports
  exactly the pair of its own GlobalDecl (the duplicate-mangled-name error at the
  declaration, the previous-definition note at the representative declaration), and
  then the GlobalDecl was not in the diagnosed set before the call and is inserted by
  it. When a definition is requested for a mangled name whose function already has a
  body, and the GlobalDecl has not been diagnosed, the call reports the pair; from then
  on no call for this GlobalDecl reports anything, whatever the name, type and request,
  and however many calls for this or any other GlobalDecl come in between. Another
  GlobalDecl for which a definition of the same name is requested has a pair of its
  own reported.
\<close>

theorem conflicting_definition_reported_once:
  "(diagnostics (snd (get_or_create_vast_function env name' ty' glob' emit' c)) = diagnostics c
      \<or> (glob' \<notin> diagnosed_conflicting_definitions c
          \<and> diagnostics (snd (get_or_create_vast_function env name' ty' glob' emit' c))
              = diagnostics c @ conflict_report env name' glob'
          \<and> diagnosed_conflicting_definitions
                (snd (get_or_create_vast_function env name' ty' glob' emit' c))
              = insert glob' (diagnosed_conflicting_definitions c)))
   \<and> (second_definition env mangled_name glob emit ctx
        \<and> glob \<notin> diagnosed_conflicting_definitions ctx \<longrightarrow>
      diagnostics (snd (get_or_create_vast_function env mangled_name ty glob emit ctx))
        = diagnostics ctx @ conflict_report env mangled_name glob
      \<and> (\<forall>calls. (\<forall>c\<in>set calls. call_glob c = glob) \<longrightarrow>
            diagnostics (resolve_all env calls
                (snd (get_or_create_vast_function env mangled_name ty glob emit ctx)))
              = diagnostics ctx @ conflict_report env mangled_name glob)
      \<and> (\<forall>calls name' ty' emit'.
            diagnostics (snd (get_or_create_vast_function env name' ty' glob emit'
                (resolve_all env calls
                  (snd (get_or_create_vast_function env mangled_name ty glob emit ctx)))))
              = diagnostics (resolve_all env calls
                  (snd (get_or_create_vast_function env mangled_name ty glob emit ctx))))
      \<and> (\<forall>other ty' emit'.
            second_definition env mangled_name other emit' ctx \<and> other \<noteq> glob
              \<and> other \<notin> diagnosed_conflicting_definitions ctx \<longrightarrow>
            diagnostics (snd (get_or_create_vast_function env mangled_name ty' other emit'
                (snd (get_or_create_vast_function env mangled_name ty glob emit ctx))))
              = diagnostics ctx @ conflict_report env mangled_name glob
                  @ conflict_report env mangled_name other))"
proof (rule conjI)
  show "diagnostics (snd (get_or_create_vast_function env name' ty' glob' emit' c)) = diagnostics c
      \<or> (glob' \<notin> diagnosed_conflicting_definitions c
          \<and> diagnostics (snd (get_or_create_vast_function env name' ty' glob' emit' c))
              = diagnostics c @ conflict_report env name' glob'
          \<and> diagnosed_conflicting_definitions
                (snd (get_or_create_vast_function env name' ty' glob' emit' c))
              = insert glob' (diagnosed_conflicting_definitions c))"
    by (rule resolver_report_step)
next
  let ?ctx1 = "snd (get_or_create_vast_function env mangled_name ty glob emit ctx)"
  show "second_definition env mangled_name glob emit ctx
        \<and> glob \<notin> diagnosed_conflicting_definitions ctx \<longrightarrow>
      diagnostics ?ctx1 = diagnostics ctx @ conflict_report env mangled_name glob
      \<and> (\<forall>calls. (\<forall>c\<in>set calls. call_glob c = glob) \<longrightarrow>
            diagnostics (resolve_all env calls ?ctx1)
              = diagnostics ctx @ conflict_report env mangled_name glob)
      \<and> (\<forall>calls name' ty' emit'.
            diagnostics (snd (get_or_create_vast_function env name' ty' glob emit'
                (resolve_all env calls ?ctx1)))
              = diagnostics (resolve_all env calls ?ctx1))
      \<and> (\<forall>other ty' emit'.
            second_definition env mangled_name other emit' ctx \<and> other \<noteq> glob
              \<and> other \<notin> diagnosed_conflicting_definitions ctx \<longrightarrow>
            diagnostics (snd (get_or_create_vast_function env mangled_name ty' other emit' ?ctx1))
              = diagnostics ctx @ conflict_report env mangled_name glob
                  @ conflict_report env mangled_name other)"
  proof
    assume pre: "second_definition env mangled_name glob emit ctx
       \<and> glob \<notin> diagnosed_conflicting_definitions ctx"
    then have second: "second_definition env mangled_name glob emit ctx"
      and fresh: "glob \<notin> diagnosed_conflicting_definitions ctx" by simp_all
    note after = first_conflict_context [OF second fresh, of ty]
    from after have first: "diagnostics ?ctx1 = diagnostics ctx @ conflict_report env mangled_name glob"
      and diagnosed: "glob \<in> diagnosed_conflicting_definitions ?ctx1" by simp_all
    have same: "\<forall>calls. (\<forall>c\<in>set calls. call_glob c = glob) \<longrightarrow>
        diagnostics (resolve_all env calls ?ctx1)
          = diagnostics ctx @ conflict_report env mangled_name glob"
      using resolve_all_reports_nothing [OF diagnosed] first by simp
    have later: "\<forall>calls name' ty' emit'.
        diagnostics (snd (get_or_create_vast_function env name' ty' glob emit'
            (resolve_all env calls ?ctx1)))
          = diagnostics (resolve_all env calls ?ctx1)"
    proof (intro allI)
      fix calls name' ty' emit'
      have "glob \<in> diagnosed_conflicting_definitions (resolve_all env calls ?ctx1)"
        using diagnosed by (rule resolve_all_keeps_diagnosed)
      then show "diagnostics (snd (get_or_create_vast_function env name' ty' glob emit'
            (resolve_all env calls ?ctx1)))
          = diagnostics (resolve_all env calls ?ctx1)"
        by (rule resolver_reports_nothing)
    qed
    have others: "\<forall>other ty' emit'.
        second_definition env mangled_name other emit' ctx \<and> other \<noteq> glob
          \<and> other \<notin> diagnosed_conflicting_definitions ctx \<longrightarrow>
        diagnostics (snd (get_or_create_vast_function env mangled_name ty' other emit' ?ctx1))
          = diagnostics ctx @ conflict_report env mangled_name glob
              @ conflict_report env mangled_name other"
    proof (intro allI impI)
      fix other ty' emit'
      assume o: "second_definition env mangled_name other emit' ctx \<and> other \<noteq> glob
          \<and> other \<notin> diagnosed_conflicting_definitions ctx"
      then have "second_definition env mangled_name other emit' ?ctx1"
        unfolding after by (simp add: second_definition_after)
      moreover from o have "other \<notin> diagnosed_conflicting_definitions ?ctx1"
        unfolding after by simp
      ultimately have "snd (get_or_create_vast_function env mangled_name ty' other emit' ?ctx1)
          = ?ctx1\<lparr>diagnosed_conflicting_definitions :=
                     insert other (diagnosed_conflicting_definitions ?ctx1),
                   diagnostics := diagnostics ?ctx1 @ conflict_report env mangled_name other\<rparr>"
        by (rule first_conflict_context)
      then have "diagnostics (snd (get_or_create_vast_function env mangled_name ty' other emit' ?ctx1))
          = diagnostics ?ctx1 @ conflict_report env mangled_name other"
        by simp
      with first show "diagnostics
          (snd (get_or_create_vast_function env mangled_name ty' other emit' ?ctx1))
          = diagnostics ctx @ conflict_report env mangled_name glob
              @ conflict_report env mangled_name other"
        by simp
    qed
    from first same later others
    show "diagnostics ?ctx1 = diagnostics ctx @ conflict_report env mangled_name glob
      \<and> (\<forall>calls. (\<forall>c\<in>set calls. call_glob c = glob) \<longrightarrow>
            diagnostics (resolve_all env calls ?ctx1)
              = diagnostics ctx @ conflict_report env mangled_name glob)
      \<and> (\<forall>calls name' ty' emit'.
            diagnostics (snd (get_or_create_vast_function env name' ty' glob emit'
                (resolve_all env calls ?ctx1)))
              = diagnostics (resolve_all env calls ?ctx1))
      \<and> (\<forall>other ty' emit'.
            second_definition env mangled_name other emit' ctx \<and> other \<noteq> glob
              \<and> other \<notin> diagnosed_conflicting_definitions ctx \<longrightarrow>
            diagnostics (snd (get_or_create_vast_function env mangled_name ty' other emit' ?ctx1))
              = diagnostics ctx @ conflict_report env mangled_name glob
                  @ conflict_report env mangled_name other)"
      by (intro conjI)
  qed
qed

theorem conflicting_definition_reported_once_witness:
  "second_definition plain_collaborators ''g'' \<lparr>getDecl = Some 2, global_kind = NoKind\<rparr>
      deferred_emit_definition context_with_g
   \<and> \<lparr>getDecl = Some 2, global_kind = NoKind\<rparr>
       \<notin> diagnosed_conflicting_definitions context_with_g
   \<and> diagnostics (snd (get_or_create_vast_function plain_collaborators ''g''
        (FunctionType \<lparr>getInputs = [], getResults = [32], isVarArg = False\<rparr>)
        \<lparr>getDecl = Some 2, global_kind = NoKind\<rparr> deferred_emit_definition context_with_g))
     = [err_duplicate_mangled_name 20 ''g'', note_previous_definition 10]
   \<and> diagnostics (resolve_all plain_collaborators
        [(''g'', FunctionType \<lparr>getInputs = [], getResults = [32], isVarArg = False\<rparr>,
          \<lparr>getDecl = Some 2, global_kind = NoKind\<rparr>, deferred_emit_definition),
         (''g'', ValueType 5, \<lparr>getDecl = Some 2, global_kind = NoKind\<rparr>, deferred_emit_definition)]
        (snd (get_or_create_vast_function plain_collaborators ''g''
          (FunctionType \<lparr>getInputs = [], getResults = [32], isVarArg = False\<rparr>)
          \<lparr>getDecl = Some 2, global_kind = NoKind\<rparr> deferred_emit_definition context_with_g)))
     = [err_duplicate_mangled_name 20 ''g'', note_previous_definition 10]
   \<and> diagnostics (snd (get_or_create_vast_function plain_collaborators ''g''
        (FunctionType \<lparr>getInputs = [], getResults = [32], isVarArg = False\<rparr>)
        \<lparr>getDecl = Some 3, global_kind = NoKind\<rparr> deferred_emit_definition
        (snd (get_or_create_vast_function plain_collaborators ''g''
          (FunctionType \<lparr>getInputs = [], getResults = [32], isVarArg = False\<rparr>)
          \<lparr>getDecl = Some 2, global_kind = NoKind\<rparr> deferred_emit_definition context_with_g))))
     = [err_duplicate_mangled_name 20 ''g'', note_previous_definition 10,
        err_duplicate_mangled_name 30 ''g'', note_previous_definition 10]"
proof -
  let ?glob = "\<lparr>getDecl = Some 2, global_kind = NoKind\<rparr>"
  let ?other = "\<lparr>getDecl = Some 3, global_kind = NoKind\<rparr>"
  let ?ty = "FunctionType \<lparr>getInputs = [], getResults = [32], isVarArg = False\<rparr>"
  let ?calls = "[(''g'', ?ty, ?glob, deferred_emit_definition),
         (''g'', ValueType 5, ?glob, deferred_emit_definition)]"
  have second: "second_definition plain_collaborators ''g'' ?glob deferred_emit_definition
      context_with_g"
    by (simp add: second_definition_def plain_collaborators_def deferred_emit_definition_def
        is_for_definition_def plain_function_def get_global_value_def context_with_g_def
        fresh_context_def get_func_def)
  have second': "second_definition plain_collaborators ''g'' ?other deferred_emit_definition
      context_with_g"
    by (simp add: second_definition_def plain_collaborators_def deferred_emit_definition_def
        is_for_definition_def plain_function_def get_global_value_def context_with_g_def
        fresh_context_def get_func_def)
  have fresh: "?glob \<notin> diagnosed_conflicting_definitions context_with_g"
    and fresh': "?other \<notin> diagnosed_conflicting_definitions context_with_g"
    by (simp_all add: context_with_g_def fresh_context_def)
  have differ: "?other \<noteq> ?glob" by simp
  have report: "conflict_report plain_collaborators ''g'' ?glob
      = [err_duplicate_mangled_name 20 ''g'', note_previous_definition 10]"
    and report': "conflict_report plain_collaborators ''g'' ?other
      = [err_duplicate_mangled_name 30 ''g'', note_previous_definition 10]"
    by (simp_all add: conflict_report_def plain_collaborators_def plain_function_def)
  have none: "diagnostics context_with_g = []"
    by (simp add: context_with_g_def fresh_context_def)
  have globs: "\<forall>c\<in>set ?calls. call_glob c = ?glob" by (simp add: call_glob_def)
  note once = conflicting_definition_reported_once
    [of plain_collaborators _ _ _ _ _ "''g''" ?glob deferred_emit_definition context_with_g ?ty,
     THEN conjunct2, THEN mp, OF conjI [OF second fresh]]
  from once [THEN conjunct1] report none
  have first: "diagnostics (snd (get_or_create_vast_function plain_collaborators ''g'' ?ty ?glob
      deferred_emit_definition context_with_g))
     = [err_duplicate_mangled_name 20 ''g'', note_previous_definition 10]"
    by simp
  from once [THEN conjunct2, THEN conjunct1, THEN spec, THEN mp, OF globs] report none
  have again: "diagnostics (resolve_all plain_collaborators ?calls
      (snd (get_or_create_vast_function plain_collaborators ''g'' ?ty ?glob
        deferred_emit_definition context_with_g)))
     = [err_duplicate_mangled_name 20 ''g'', note_previous_definition 10]"
    by simp
  from once [THEN conjunct2, THEN conjunct2, THEN conjunct2, THEN spec, THEN spec, THEN spec,
      THEN mp, OF conjI [OF second' conjI [OF differ fresh']], of ?ty] report report' none
  have another: "diagnostics (snd (get_or_create_vast_function plain_collaborators ''g'' ?ty ?other
      deferred_emit_definition
      (snd (get_or_create_vast_function plain_collaborators ''g'' ?ty ?glob
        deferred_emit_definition context_with_g))))
     = [err_duplicate_mangled_name 20 ''g'', note_previous_definition 10,
        err_duplicate_mangled_name 30 ''g'', note_previous_definition 10]"
    by simp
  from second fresh first again another show ?thesis by (intro conjI)
qed

text \<open>
  C4 as stated fails: the pair is not reported once for the mangled name. In the module
  the function \<open>g\<close> has a body. Declarations 2 and 3 are two redeclarations of one
  function, with one canonical declaration, and a definition of \<open>g\<close> is requested for
  each, twice in turn: the pair is reported for declaration 2 and again for
  declaration 3.
\<close>

theorem conflicting_definition_reported_once_counterexample:
  "canonical_decl (ast plain_collaborators 2) = canonical_decl (ast plain_collaborators 3)
   \<and> diagnostics (resolve_all plain_collaborators
        [(''g'', FunctionType \<lparr>getInputs = [], getResults = [32], isVarArg = False\<rparr>,
          \<lparr>getDecl = Some 2, global_kind = NoKind\<rparr>, deferred_emit_definition),
         (''g'', FunctionType \<lparr>getInputs = [], getResults = [32], isVarArg = False\<rparr>,
          \<lparr>getDecl = Some 3, global_kind = NoKind\<rparr>, deferred_emit_definition),
         (''g'', FunctionType \<lparr>getInputs = [], getResults = [32], isVarArg = False\<rparr>,
          \<lparr>getDecl = Some 2, global_kind = NoKind\<rparr>, deferred_emit_definition),
         (''g'', FunctionType \<lparr>getInputs = [], getResults = [32], isVarArg = False\<rparr>,
          \<lparr>getDecl = Some 3, global_kind = NoKind\<rparr>, deferred_emit_definition)]
        context_with_g)
     = [err_duplicate_mangled_name 20 ''g'', note_previous_definition 10,
        err_duplicate_mangled_name 30 ''g'', note_previous_definition 10]"
  by (simp add: resolve_def get_or_create_vast_function_def diagnose_conflict_def
      record_conflicting_definition_def report_def plain_collaborators_def plain_function_def
      deferred_emit_definition_def is_for_definition_def get_global_value_def get_func_def
      context_with_g_def fresh_context_def)

lemma walk_redecls_find:
  "walk_redecls env glob ds ctx =
     (case find (in_record_with_body env) ds of
        None \<Rightarrow> ctx
      | Some d \<Rightarrow>
          if is_defaulted_method (ast env d)
          then add_default_methods_to_emit (getWithDecl glob d) ctx
          else add_deferred_decl_to_emit (getWithDecl glob d) ctx)"
  by (induction ds) (simp_all add: in_record_with_body_def)

lemma defer_emission_result:
  assumes "defer_emission env mangled_name glob ctx = Inr ctx'"
  shows "\<exists>decl. getDecl glob = Some decl \<and> \<not> isa_CXXDestructorDecl (ast env decl) \<and>
    ctx' = (case deferred_decls ctx mangled_name of
              Some pending \<Rightarrow>
                (add_deferred_decl_to_emit pending ctx)
                  \<lparr>deferred_decls := (deferred_decls ctx)(mangled_name := None)\<rparr>
            | None \<Rightarrow>
                if CPlusPlus env then walk_redecls env glob (redecls (ast env decl)) ctx
                else ctx)
    \<or> getDecl glob = None"
  using assms
  by (cases "getDecl glob") (auto simp: defer_emission_def split: if_splits option.splits)

lemma make_FuncOp_made:
  assumes "make_operation (make_FuncOp name fty linkage) ctx = (new, ctx')"
  shows "get_func ctx' new
    = Some \<lparr>sym_name = name, function_type = fty, fn_linkage = linkage,
            fn_visibility = Public, fn_attrs = Map.empty, fn_body = []\<rparr>"
  using assms
  by (auto simp: make_operation_def make_FuncOp_def get_func_def Let_def nth_append
      nth_list_update split: option.splits if_splits)

lemma create_vast_function_succeeds:
  assumes "table_lookup (global_values ctx) mangled_name = None"
    and "global_values ctx \<noteq> []"
    and "same_spelling_agree (visit_attr env) (getAttrs function_decl)"
  shows "\<exists>fn ctx'. create_vast_function env mangled_name fty function_decl ctx = (Inr fn, ctx')"
proof -
  let ?linkage = "get_function_linkage env
      \<lparr>getDecl = Some (function_id function_decl), global_kind = NoKind\<rparr>"
  let ?f = "\<lparr>sym_name = mangled_name, function_type = fty, fn_linkage = ?linkage,
            fn_visibility = Public, fn_attrs = Map.empty, fn_body = []\<rparr>"
  obtain new made where made: "make_operation (make_FuncOp mangled_name fty ?linkage) ctx = (new, made)"
    by (cases "make_operation (make_FuncOp mangled_name fty ?linkage) ctx")
  have "global_values made = global_values ctx"
    using make_operation_ledger [OF made] by simp
  with assms(2) obtain table where ins: "table_insert mangled_name new (global_values made) = Inr table"
    using table_insert_open [of "global_values made" mangled_name new] by auto
  have declared: "context_declare global_values (\<lambda>table c. c\<lparr>global_values := table\<rparr>) mangled_name
      (\<lambda>c. Inr (make_operation (make_FuncOp mangled_name fty ?linkage) c)) ctx
      = Inr (new, made\<lparr>global_values := table\<rparr>)"
    using assms(1) made ins by (simp add: context_declare_def)
  have "get_func (made\<lparr>global_values := table\<rparr>) new = get_func made new"
    by (simp add: get_func_def)
  also have "\<dots> = Some ?f" using made by (rule make_FuncOp_made)
  finally have func: "get_func (made\<lparr>global_values := table\<rparr>) new = Some ?f" .
  have agree: "\<forall>a\<in>set (exclude_attrs excluded_attr_list (getAttrs function_decl)).
      \<forall>b\<in>set (exclude_attrs excluded_attr_list (getAttrs function_decl)).
        attr_spelling a = attr_spelling b \<longrightarrow> visit_attr env a = visit_attr env b"
    using assms(3) unfolding same_spelling_agree_iff .
  have present: "\<forall>a\<in>set (exclude_attrs excluded_attr_list (getAttrs function_decl)).
      \<forall>prev. Map.empty (attr_spelling a) = Some prev \<longrightarrow> visit_attr env a = prev"
    by simp
  from visit_attrs_succeeds [OF present agree] obtain attrs where
    "visit_attrs (visit_attr env) (exclude_attrs excluded_attr_list (getAttrs function_decl))
       Map.empty = Inr attrs"
    by blast
  then have "\<exists>attrs. visit_decl_attrs (visit_attr env) (getAttrs function_decl) Map.empty = Inr attrs"
    by (simp add: visit_decl_attrs_def)
  then obtain attrs where
    attrs: "visit_decl_attrs (visit_attr env) (getAttrs function_decl) (fn_attrs ?f) = Inr attrs"
    by auto
  show ?thesis
    unfolding create_vast_function_def Let_def
    using declared func attrs by simp
qed

lemma is_defaulted_method_iff:
  "is_defaulted_method d \<longleftrightarrow>
     isDefaulted d \<and> isa_CXXMethodDecl d
     \<and> (isCopyAssignmentOperator d \<or> isMoveAssignmentOperator d)"
  by (auto simp: is_defaulted_method_def)

text \<open>
  C5. On a call with \<open>emit.defer\<close> set for a name that has no entity yet, if the call
  returns a function: the function is now the entity of the name; if the pending map
  had an entry for the name, the entry is appended to the to-emit list and erased from
  the pending map, and the default-methods queue is unchanged; otherwise the pending map
  is unchanged and, in C++ mode, the first redeclaration, from the most recent
  backwards, that is lexically in a record and has a body is queued, as the request's
  GlobalDecl with that declaration in place of its own: on the default-methods queue
  when it is defaulted, a method, and a copy- or move-assignment operator, on the
  to-emit list otherwise; when there is none, or outside C++ mode, both queues are
  unchanged. The call does return a function when the request is for no vtable or
  thunk, the type is a function type, the declaration is a function that is no
  destructor and not multi-versioned, a scope is open in the table, and the
  declaration's attributes of one spelling lower to one value.
\<close>

theorem deferred_emission_queues:
  "(get_global_value ctx mangled_name = None \<and> emit_defer emit
      \<and> get_or_create_vast_function env mangled_name ty glob emit ctx = (Inr fn, ctx') \<longrightarrow>
      get_global_value ctx' mangled_name = Some fn
      \<and> (case deferred_decls ctx mangled_name of
            Some pending \<Rightarrow>
              deferred_decls_to_emit ctx' = deferred_decls_to_emit ctx @ [pending]
              \<and> deferred_decls ctx' = (deferred_decls ctx)(mangled_name := None)
              \<and> default_methods_to_emit ctx' = default_methods_to_emit ctx
          | None \<Rightarrow>
              deferred_decls ctx' = deferred_decls ctx
              \<and> (case (if CPlusPlus env
                        then find (in_record_with_body env)
                               (case getDecl glob of
                                  Some decl \<Rightarrow> redecls (ast env decl) | None \<Rightarrow> [])
                        else None) of
                    None \<Rightarrow>
                      deferred_decls_to_emit ctx' = deferred_decls_to_emit ctx
                      \<and> default_methods_to_emit ctx' = default_methods_to_emit ctx
                  | Some d \<Rightarrow>
                      if isDefaulted (ast env d) \<and> isa_CXXMethodDecl (ast env d)
                         \<and> (isCopyAssignmentOperator (ast env d)
                              \<or> isMoveAssignmentOperator (ast env d))
                      then
                        default_methods_to_emit ctx'
                          = default_methods_to_emit ctx @ [glob\<lparr>getDecl := Some d\<rparr>]
                        \<and> deferred_decls_to_emit ctx' = deferred_decls_to_emit ctx
                      else
                        deferred_decls_to_emit ctx'
                          = deferred_decls_to_emit ctx @ [glob\<lparr>getDecl := Some d\<rparr>]
                        \<and> default_methods_to_emit ctx' = default_methods_to_emit ctx)))
   \<and> (get_global_value ctx mangled_name = None \<and> global_values ctx \<noteq> []
      \<and> \<not> for_vtable emit \<and> \<not> thunk emit \<and> \<not> OpenMPIsTargetDevice env
      \<and> getDecl glob = Some decl \<and> \<not> isMultiVersion (ast env decl)
      \<and> \<not> isa_CXXDestructorDecl (ast env decl)
      \<and> same_spelling_agree (visit_attr env) (getAttrs (ast env decl)) \<longrightarrow>
      (\<exists>fn ctx'. get_or_create_vast_function env mangled_name (FunctionType fty) glob emit ctx
          = (Inr fn, ctx')))"
proof (rule conjI; rule impI)
  assume pre: "get_global_value ctx mangled_name = None \<and> emit_defer emit
      \<and> get_or_create_vast_function env mangled_name ty glob emit ctx = (Inr fn, ctx')"
  then have none: "get_global_value ctx mangled_name = None" and deferring: "emit_defer emit"
    and call: "get_or_create_vast_function env mangled_name ty glob emit ctx = (Inr fn, ctx')"
    by simp_all
  from call none deferring obtain fty d ctx1 where
    d: "getDecl glob = Some d"
    and created: "create_vast_function env mangled_name fty (ast env d) ctx = (Inr fn, ctx1)"
    and deferred: "defer_emission env mangled_name glob ctx1 = Inr ctx'"
    by (auto simp: get_or_create_vast_function_def
        split: if_splits option.splits sum.splits vast_type.splits prod.splits)
  note c = create_vast_function_ledger [OF created]
  from defer_emission_result [OF deferred] d
  have ctx': "ctx' = (case deferred_decls ctx1 mangled_name of
              Some pending \<Rightarrow>
                (add_deferred_decl_to_emit pending ctx1)
                  \<lparr>deferred_decls := (deferred_decls ctx1)(mangled_name := None)\<rparr>
            | None \<Rightarrow>
                if CPlusPlus env then walk_redecls env glob (redecls (ast env d)) ctx1
                else ctx1)"
    by auto
  have entity: "get_global_value ctx' mangled_name = Some fn"
    using defer_emission_ledger [OF deferred] c by (simp add: get_global_value_def)
  have queues: "(case deferred_decls ctx mangled_name of
            Some pending \<Rightarrow>
              deferred_decls_to_emit ctx' = deferred_decls_to_emit ctx @ [pending]
              \<and> deferred_decls ctx' = (deferred_decls ctx)(mangled_name := None)
              \<and> default_methods_to_emit ctx' = default_methods_to_emit ctx
          | None \<Rightarrow>
              deferred_decls ctx' = deferred_decls ctx
              \<and> (case (if CPlusPlus env
                        then find (in_record_with_body env)
                               (case getDecl glob of
                                  Some decl \<Rightarrow> redecls (ast env decl) | None \<Rightarrow> [])
                        else None) of
                    None \<Rightarrow>
                      deferred_decls_to_emit ctx' = deferred_decls_to_emit ctx
                      \<and> default_methods_to_emit ctx' = default_methods_to_emit ctx
                  | Some d \<Rightarrow>
                      if isDefaulted (ast env d) \<and> isa_CXXMethodDecl (ast env d)
                         \<and> (isCopyAssignmentOperator (ast env d)
                              \<or> isMoveAssignmentOperator (ast env d))
                      then
                        default_methods_to_emit ctx'
                          = default_methods_to_emit ctx @ [glob\<lparr>getDecl := Some d\<rparr>]
                        \<and> deferred_decls_to_emit ctx' = deferred_decls_to_emit ctx
                      else
                        deferred_decls_to_emit ctx'
                          = deferred_decls_to_emit ctx @ [glob\<lparr>getDecl := Some d\<rparr>]
                        \<and> default_methods_to_emit ctx' = default_methods_to_emit ctx))"
  proof (cases "deferred_decls ctx mangled_name")
    case (Some pending)
    with ctx' c show ?thesis by (simp add: add_deferred_decl_to_emit_def)
  next
    case None
    show ?thesis
    proof (cases "CPlusPlus env")
      case False
      with None ctx' c show ?thesis by simp
    next
      case True
      with None ctx' c have w: "ctx' = walk_redecls env glob (redecls (ast env d)) ctx1" by simp
      show ?thesis
      proof (cases "find (in_record_with_body env) (redecls (ast env d))")
        case no: None
        with w have "ctx' = ctx1" by (simp add: walk_redecls_find)
        with None True no d c show ?thesis by simp
      next
        case (Some r)
        with w have "ctx' = (if is_defaulted_method (ast env r)
          then add_default_methods_to_emit (getWithDecl glob r) ctx1
          else add_deferred_decl_to_emit (getWithDecl glob r) ctx1)"
          by (simp add: walk_redecls_find)
        with None True Some d c show ?thesis
          by (simp add: add_default_methods_to_emit_def add_deferred_decl_to_emit_def
              is_defaulted_method_iff getWithDecl_def)
      qed
    qed
  qed
  from entity queues show "get_global_value ctx' mangled_name = Some fn
      \<and> (case deferred_decls ctx mangled_name of
            Some pending \<Rightarrow>
              deferred_decls_to_emit ctx' = deferred_decls_to_emit ctx @ [pending]
              \<and> deferred_decls ctx' = (deferred_decls ctx)(mangled_name := None)
              \<and> default_methods_to_emit ctx' = default_methods_to_emit ctx
          | None \<Rightarrow>
              deferred_decls ctx' = deferred_decls ctx
              \<and> (case (if CPlusPlus env
                        then find (in_record_with_body env)
                               (case getDecl glob of
                                  Some decl \<Rightarrow> redecls (ast env decl) | None \<Rightarrow> [])
                        else None) of
                    None \<Rightarrow>
                      deferred_decls_to_emit ctx' = deferred_decls_to_emit ctx
                      \<and> default_methods_to_emit ctx' = default_methods_to_emit ctx
                  | Some d \<Rightarrow>
                      if isDefaulted (ast env d) \<and> isa_CXXMethodDecl (ast env d)
                         \<and> (isCopyAssignmentOperator (ast env d)
                              \<or> isMoveAssignmentOperator (ast env d))
                      then
                        default_methods_to_emit ctx'
                          = default_methods_to_emit ctx @ [glob\<lparr>getDecl := Some d\<rparr>]
                        \<and> deferred_decls_to_emit ctx' = deferred_decls_to_emit ctx
                      else
                        deferred_decls_to_emit ctx'
                          = deferred_decls_to_emit ctx @ [glob\<lparr>getDecl := Some d\<rparr>]
                        \<and> default_methods_to_emit ctx' = default_methods_to_emit ctx))"
    by (rule conjI)
next
  assume pre: "get_global_value ctx mangled_name = None \<and> global_values ctx \<noteq> []
      \<and> \<not> for_vtable emit \<and> \<not> thunk emit \<and> \<not> OpenMPIsTargetDevice env
      \<and> getDecl glob = Some decl \<and> \<not> isMultiVersion (ast env decl)
      \<and> \<not> isa_CXXDestructorDecl (ast env decl)
      \<and> same_spelling_agree (visit_attr env) (getAttrs (ast env decl))"
  then have none: "table_lookup (global_values ctx) mangled_name = None"
    and scope: "global_values ctx \<noteq> []"
    and attrs: "same_spelling_agree (visit_attr env) (getAttrs (ast env decl))"
    by (simp_all add: get_global_value_def)
  from create_vast_function_succeeds [OF none scope attrs, of fty]
  obtain f ctx1 where created:
    "create_vast_function env mangled_name fty (ast env decl) ctx = (Inr f, ctx1)"
    by blast
  have "\<exists>ctx2. defer_emission env mangled_name glob ctx1 = Inr ctx2"
    using pre by (simp add: defer_emission_def split: option.split)
  then obtain ctx2 where deferred: "defer_emission env mangled_name glob ctx1 = Inr ctx2"
    by (rule exE)
  show "\<exists>fn ctx'. get_or_create_vast_function env mangled_name (FunctionType fty) glob emit ctx
          = (Inr fn, ctx')"
  proof (cases "emit_defer emit")
    case True
    with pre created deferred
    have "get_or_create_vast_function env mangled_name (FunctionType fty) glob emit ctx
        = (Inr f, ctx2)"
      by (simp add: get_or_create_vast_function_def)
    then show ?thesis by (intro exI)
  next
    case False
    with pre created
    have "get_or_create_vast_function env mangled_name (FunctionType fty) glob emit ctx
        = (Inr f, ctx1)"
      by (simp add: get_or_create_vast_function_def)
    then show ?thesis by (intro exI)
  qed
qed

theorem deferred_emission_queues_witness:
  "(\<exists>fn ctx'. get_or_create_vast_function plain_collaborators ''g''
          (FunctionType \<lparr>getInputs = [], getResults = [32], isVarArg = False\<rparr>)
          \<lparr>getDecl = Some 2, global_kind = NoKind\<rparr> deferred_emit_definition
          (fresh_context\<lparr>deferred_decls := [''g'' \<mapsto> \<lparr>getDecl = Some 9, global_kind = NoKind\<rparr>]\<rparr>)
          = (Inr fn, ctx')
        \<and> get_global_value ctx' ''g'' = Some fn
        \<and> deferred_decls_to_emit ctx' = [\<lparr>getDecl = Some 9, global_kind = NoKind\<rparr>]
        \<and> deferred_decls ctx' ''g'' = None
        \<and> default_methods_to_emit ctx' = [])
   \<and> (\<exists>fn ctx'. get_or_create_vast_function cxx_collaborators ''g''
          (FunctionType \<lparr>getInputs = [], getResults = [32], isVarArg = False\<rparr>)
          \<lparr>getDecl = Some 4, global_kind = NoKind\<rparr> deferred_emit_definition fresh_context
          = (Inr fn, ctx')
        \<and> get_global_value ctx' ''g'' = Some fn
        \<and> default_methods_to_emit ctx' = [\<lparr>getDecl = Some 3, global_kind = NoKind\<rparr>]
        \<and> deferred_decls_to_emit ctx' = [])
   \<and> (\<exists>fn ctx'. get_or_create_vast_function cxx_collaborators ''g''
          (FunctionType \<lparr>getInputs = [], getResults = [32], isVarArg = False\<rparr>)
          \<lparr>getDecl = Some 6, global_kind = NoKind\<rparr> deferred_emit_definition fresh_context
          = (Inr fn, ctx')
        \<and> get_global_value ctx' ''g'' = Some fn
        \<and> deferred_decls_to_emit ctx' = [\<lparr>getDecl = Some 6, global_kind = NoKind\<rparr>]
        \<and> default_methods_to_emit ctx' = [])"
proof (intro conjI)
  let ?pending = "\<lparr>getDecl = Some 9, global_kind = NoKind\<rparr>"
  let ?ctx = "fresh_context\<lparr>deferred_decls := [''g'' \<mapsto> ?pending]\<rparr>"
  let ?glob = "\<lparr>getDecl = Some 2, global_kind = NoKind\<rparr>"
  let ?fty = "\<lparr>getInputs = [], getResults = [32::nat], isVarArg = False\<rparr>"
  have none: "get_global_value ?ctx ''g'' = None"
    by (simp add: get_global_value_def fresh_context_def)
  have deferring: "emit_defer deferred_emit_definition"
    by (simp add: deferred_emit_definition_def)
  have pre: "get_global_value ?ctx ''g'' = None \<and> global_values ?ctx \<noteq> []
      \<and> \<not> for_vtable deferred_emit_definition \<and> \<not> thunk deferred_emit_definition
      \<and> \<not> OpenMPIsTargetDevice plain_collaborators
      \<and> getDecl ?glob = Some 2 \<and> \<not> isMultiVersion (ast plain_collaborators 2)
      \<and> \<not> isa_CXXDestructorDecl (ast plain_collaborators 2)
      \<and> same_spelling_agree (visit_attr plain_collaborators) (getAttrs (ast plain_collaborators 2))"
    by (simp add: get_global_value_def fresh_context_def deferred_emit_definition_def
        plain_collaborators_def plain_function_def isa_CXXDestructorDecl_def
        same_spelling_agree_def exclude_attrs_def)
  note total = deferred_emission_queues
    [of ?ctx "''g''" deferred_emit_definition plain_collaborators _ ?glob _ _ 2 ?fty]
  from total [THEN conjunct2, THEN mp, OF pre]
  obtain fn ctx' where call: "get_or_create_vast_function plain_collaborators ''g''
      (FunctionType ?fty) ?glob deferred_emit_definition ?ctx = (Inr fn, ctx')"
    by blast
  from deferred_emission_queues
    [of ?ctx "''g''" deferred_emit_definition plain_collaborators "FunctionType ?fty" ?glob fn ctx',
     THEN conjunct1, THEN mp, OF conjI [OF none conjI [OF deferring call]]]
  have entity: "get_global_value ctx' ''g'' = Some fn"
    and queues: "deferred_decls_to_emit ctx' = deferred_decls_to_emit ?ctx @ [?pending]
        \<and> deferred_decls ctx' = (deferred_decls ?ctx)(''g'' := None)
        \<and> default_methods_to_emit ctx' = default_methods_to_emit ?ctx"
    by simp_all
  from queues have q1: "deferred_decls_to_emit ctx' = [?pending]"
    and q2: "deferred_decls ctx' ''g'' = None" and q3: "default_methods_to_emit ctx' = []"
    by (simp_all add: fresh_context_def)
  from call entity q1 q2 q3
  show "\<exists>fn ctx'. get_or_create_vast_function plain_collaborators ''g''
          (FunctionType ?fty) ?glob deferred_emit_definition ?ctx = (Inr fn, ctx')
        \<and> get_global_value ctx' ''g'' = Some fn
        \<and> deferred_decls_to_emit ctx' = [?pending]
        \<and> deferred_decls ctx' ''g'' = None
        \<and> default_methods_to_emit ctx' = []"
    by (intro exI [of _ fn] exI [of _ ctx'] conjI)
next
  let ?glob = "\<lparr>getDecl = Some 4, global_kind = NoKind\<rparr>"
  let ?fty = "\<lparr>getInputs = [], getResults = [32::nat], isVarArg = False\<rparr>"
  have none: "get_global_value fresh_context ''g'' = None"
    by (simp add: get_global_value_def fresh_context_def)
  have deferring: "emit_defer deferred_emit_definition"
    by (simp add: deferred_emit_definition_def)
  have pre: "get_global_value fresh_context ''g'' = None \<and> global_values fresh_context \<noteq> []
      \<and> \<not> for_vtable deferred_emit_definition \<and> \<not> thunk deferred_emit_definition
      \<and> \<not> OpenMPIsTargetDevice cxx_collaborators
      \<and> getDecl ?glob = Some 4 \<and> \<not> isMultiVersion (ast cxx_collaborators 4)
      \<and> \<not> isa_CXXDestructorDecl (ast cxx_collaborators 4)
      \<and> same_spelling_agree (visit_attr cxx_collaborators) (getAttrs (ast cxx_collaborators 4))"
    by (simp add: get_global_value_def fresh_context_def deferred_emit_definition_def
        cxx_collaborators_def cxx_method_def plain_collaborators_def plain_function_def
        isa_CXXDestructorDecl_def same_spelling_agree_def exclude_attrs_def)
  have pending: "deferred_decls fresh_context ''g'' = None" by (simp add: fresh_context_def)
  have cxx: "CPlusPlus cxx_collaborators" by (simp add: cxx_collaborators_def)
  have found: "find (in_record_with_body cxx_collaborators) (redecls (ast cxx_collaborators 4))
      = Some 3"
    by (simp add: in_record_with_body_def cxx_collaborators_def cxx_method_def
        plain_function_def)
  have defaulted: "isDefaulted (ast cxx_collaborators 3) \<and> isa_CXXMethodDecl (ast cxx_collaborators 3)
      \<and> (isCopyAssignmentOperator (ast cxx_collaborators 3)
           \<or> isMoveAssignmentOperator (ast cxx_collaborators 3))"
    by (simp add: cxx_collaborators_def cxx_method_def plain_function_def isa_CXXMethodDecl_def)
  note total = deferred_emission_queues
    [of fresh_context "''g''" deferred_emit_definition cxx_collaborators _ ?glob _ _ 4 ?fty]
  from total [THEN conjunct2, THEN mp, OF pre]
  obtain fn ctx' where call: "get_or_create_vast_function cxx_collaborators ''g''
      (FunctionType ?fty) ?glob deferred_emit_definition fresh_context = (Inr fn, ctx')"
    by blast
  from deferred_emission_queues
    [of fresh_context "''g''" deferred_emit_definition cxx_collaborators "FunctionType ?fty" ?glob
       fn ctx',
     THEN conjunct1, THEN mp, OF conjI [OF none conjI [OF deferring call]]]
    pending cxx found defaulted
  have entity: "get_global_value ctx' ''g'' = Some fn"
    and queues: "default_methods_to_emit ctx'
          = default_methods_to_emit fresh_context @ [?glob\<lparr>getDecl := Some 3\<rparr>]
        \<and> deferred_decls_to_emit ctx' = deferred_decls_to_emit fresh_context"
    by simp_all
  from queues have q1: "default_methods_to_emit ctx' = [\<lparr>getDecl = Some 3, global_kind = NoKind\<rparr>]"
    and q2: "deferred_decls_to_emit ctx' = []"
    by (simp_all add: fresh_context_def)
  from call entity q1 q2
  show "\<exists>fn ctx'. get_or_create_vast_function cxx_collaborators ''g''
          (FunctionType ?fty) ?glob deferred_emit_definition fresh_context = (Inr fn, ctx')
        \<and> get_global_value ctx' ''g'' = Some fn
        \<and> default_methods_to_emit ctx' = [\<lparr>getDecl = Some 3, global_kind = NoKind\<rparr>]
        \<and> deferred_decls_to_emit ctx' = []"
    by (intro exI [of _ fn] exI [of _ ctx'] conjI)
next
  let ?glob = "\<lparr>getDecl = Some 6, global_kind = NoKind\<rparr>"
  let ?fty = "\<lparr>getInputs = [], getResults = [32::nat], isVarArg = False\<rparr>"
  have none: "get_global_value fresh_context ''g'' = None"
    by (simp add: get_global_value_def fresh_context_def)
  have deferring: "emit_defer deferred_emit_definition"
    by (simp add: deferred_emit_definition_def)
  have pre: "get_global_value fresh_context ''g'' = None \<and> global_values fresh_context \<noteq> []
      \<and> \<not> for_vtable deferred_emit_definition \<and> \<not> thunk deferred_emit_definition
      \<and> \<not> OpenMPIsTargetDevice cxx_collaborators
      \<and> getDecl ?glob = Some 6 \<and> \<not> isMultiVersion (ast cxx_collaborators 6)
      \<and> \<not> isa_CXXDestructorDecl (ast cxx_collaborators 6)
      \<and> same_spelling_agree (visit_attr cxx_collaborators) (getAttrs (ast cxx_collaborators 6))"
    by (simp add: get_global_value_def fresh_context_def deferred_emit_definition_def
        cxx_collaborators_def cxx_method_def plain_collaborators_def plain_function_def
        isa_CXXDestructorDecl_def same_spelling_agree_def exclude_attrs_def)
  have pending: "deferred_decls fresh_context ''g'' = None" by (simp add: fresh_context_def)
  have cxx: "CPlusPlus cxx_collaborators" by (simp add: cxx_collaborators_def)
  have found: "find (in_record_with_body cxx_collaborators) (redecls (ast cxx_collaborators 6))
      = Some 6"
    by (simp add: in_record_with_body_def cxx_collaborators_def cxx_method_def
        plain_function_def)
  have regular: "\<not> isDefaulted (ast cxx_collaborators 6)"
    by (simp add: cxx_collaborators_def cxx_method_def plain_function_def)
  note total = deferred_emission_queues
    [of fresh_context "''g''" deferred_emit_definition cxx_collaborators _ ?glob _ _ 6 ?fty]
  from total [THEN conjunct2, THEN mp, OF pre]
  obtain fn ctx' where call: "get_or_create_vast_function cxx_collaborators ''g''
      (FunctionType ?fty) ?glob deferred_emit_definition fresh_context = (Inr fn, ctx')"
    by blast
  from deferred_emission_queues
    [of fresh_context "''g''" deferred_emit_definition cxx_collaborators "FunctionType ?fty" ?glob
       fn ctx',
     THEN conjunct1, THEN mp, OF conjI [OF none conjI [OF deferring call]]]
    pending cxx found regular
  have entity: "get_global_value ctx' ''g'' = Some fn"
    and queues: "deferred_decls_to_emit ctx'
          = deferred_decls_to_emit fresh_context @ [?glob\<lparr>getDecl := Some 6\<rparr>]
        \<and> default_methods_to_emit ctx' = default_methods_to_emit fresh_context"
    by simp_all
  from queues have q1: "deferred_decls_to_emit ctx' = [\<lparr>getDecl = Some 6, global_kind = NoKind\<rparr>]"
    and q2: "default_methods_to_emit ctx' = []"
    by (simp_all add: fresh_context_def)
  from call entity q1 q2
  show "\<exists>fn ctx'. get_or_create_vast_function cxx_collaborators ''g''
          (FunctionType ?fty) ?glob deferred_emit_definition fresh_context = (Inr fn, ctx')
        \<and> get_global_value ctx' ''g'' = Some fn
        \<and> deferred_decls_to_emit ctx' = [\<lparr>getDecl = Some 6, global_kind = NoKind\<rparr>]
        \<and> default_methods_to_emit ctx' = []"
    by (intro exI [of _ fn] exI [of _ ctx'] conjI)
qed


subsection \<open>Declaring twice\<close>







subsection \<open>Enum constants\<close>























subsection \<open>Visiting a function again\<close>


















subsection \<open>A declaration visited twice\<close>





subsection \<open>Pass pipeline\<close>

lemma addNestedPass_seen:
  "getTypeID p \<in> seen ppl \<Longrightarrow> addNestedPass parent_t p ppl = ppl"
  by (simp add: addNestedPass_def)

lemma addPass_seen:
  "getTypeID p \<in> seen ppl \<Longrightarrow> addPass p ppl = ppl"
  by (simp add: addPass_def)

lemma addNestedPass_marks_seen:
  "getTypeID p \<in> seen (addNestedPass parent_t p ppl)"
  by (simp add: addNestedPass_def base_addNestedPass_def Let_def)

lemma addPass_marks_seen:
  "getTypeID p \<in> seen (addPass p ppl)"
  by (simp add: addPass_def base_addPass_def Let_def)

lemma addNestedPass_keeps_invariant:
  "one_pass_per_id ppl \<Longrightarrow> one_pass_per_id (addNestedPass parent_t p ppl)"
  by (auto simp: one_pass_per_id_def addNestedPass_def base_addNestedPass_def
      scheduled_ids_def Let_def)

lemma addPass_keeps_invariant:
  "one_pass_per_id ppl \<Longrightarrow> one_pass_per_id (addPass p ppl)"
  by (auto simp: one_pass_per_id_def addPass_def base_addPass_def scheduled_ids_def Let_def)

text \<open>
  C9. A pass whose TypeID is already in \<open>seen\<close> is not added, by \<open>addNestedPass\<close> or by
  \<open>addPass\<close>: the pipeline is returned as it was. Hence adding a pass of the same TypeID a
  second time (the same pass, or another instance \<open>q\<close> of it, under any parent) leaves the
  pass manager as it was after the first addition, and a pipeline in which every
  scheduled pass is in \<open>seen\<close> and no TypeID occurs twice keeps that property.
\<close>

theorem pipeline_schedules_pass_once:
  "(getTypeID p \<in> seen ppl \<longrightarrow>
      addNestedPass parent_t p ppl = ppl \<and> addPass p ppl = ppl)
   \<and> (getTypeID q = getTypeID p \<longrightarrow>
      addNestedPass parent' q (addNestedPass parent_t p ppl) = addNestedPass parent_t p ppl
      \<and> addPass q (addNestedPass parent_t p ppl) = addNestedPass parent_t p ppl
      \<and> addNestedPass parent' q (addPass p ppl) = addPass p ppl
      \<and> addPass q (addPass p ppl) = addPass p ppl)
   \<and> (one_pass_per_id ppl \<longrightarrow>
      one_pass_per_id (addNestedPass parent_t p ppl) \<and> one_pass_per_id (addPass p ppl))"
proof (intro conjI impI)
  assume same: "getTypeID q = getTypeID p"
  have n: "getTypeID q \<in> seen (addNestedPass parent_t p ppl)"
    using addNestedPass_marks_seen [of p parent_t ppl] same by simp
  have a: "getTypeID q \<in> seen (addPass p ppl)"
    using addPass_marks_seen [of p ppl] same by simp
  show "addNestedPass parent' q (addNestedPass parent_t p ppl) = addNestedPass parent_t p ppl"
    using n by (rule addNestedPass_seen)
  show "addPass q (addNestedPass parent_t p ppl) = addNestedPass parent_t p ppl"
    using n by (rule addPass_seen)
  show "addNestedPass parent' q (addPass p ppl) = addPass p ppl"
    using a by (rule addNestedPass_seen)
  show "addPass q (addPass p ppl) = addPass p ppl"
    using a by (rule addPass_seen)
qed (simp_all add: addNestedPass_seen addPass_seen addNestedPass_keeps_invariant
    addPass_keeps_invariant)

theorem pipeline_schedules_pass_once_witness:
  "addNestedPass ''hl.func'' \<lparr>getTypeID = 7, pass_options = ''b''\<rparr>
      (addNestedPass ''core.module'' \<lparr>getTypeID = 7, pass_options = ''a''\<rparr> empty_pipeline)
    = \<lparr>base = [(Some ''core.module'', \<lparr>getTypeID = 7, pass_options = ''a''\<rparr>)], seen = {7}\<rparr>
   \<and> one_pass_per_id
       (addNestedPass ''core.module'' \<lparr>getTypeID = 7, pass_options = ''a''\<rparr> empty_pipeline)"
proof -
  let ?p = "\<lparr>getTypeID = 7, pass_options = ''a''\<rparr>"
  let ?q = "\<lparr>getTypeID = 7, pass_options = ''b''\<rparr>"
  have inv: "one_pass_per_id empty_pipeline"
    by (simp add: one_pass_per_id_def scheduled_ids_def empty_pipeline_def)
  have first: "addNestedPass ''core.module'' ?p empty_pipeline
      = \<lparr>base = [(Some ''core.module'', ?p)], seen = {7}\<rparr>"
    by (simp add: addNestedPass_def base_addNestedPass_def empty_pipeline_def)
  have same: "getTypeID ?q = getTypeID ?p" by simp
  from pipeline_schedules_pass_once [of ?p empty_pipeline "''core.module''" ?q "''hl.func''"]
    inv same first
  show ?thesis by simp
qed


end
